theory Spec2Isabelle
  imports Complex_Main "HOL-Library.Sublist"
begin

section \<open>Python values\<close>

text \<open>
  The exceptions that \<^verbatim>\<open>tools/verify_connectivity.py\<close> can raise on a value of
  an unexpected shape. None of them is caught in the source (only
  \<^verbatim>\<open>json.JSONDecodeError\<close> is), so each one ends the run.
\<close>

datatype pyerr = AttributeError | TypeError | KeyError

text \<open>
  The values \<^verbatim>\<open>json.loads\<close> returns: \<^verbatim>\<open>None\<close>, \<^verbatim>\<open>bool\<close>, \<^verbatim>\<open>int\<close>,
  \<^verbatim>\<open>float\<close>, \<^verbatim>\<open>str\<close>, \<^verbatim>\<open>list\<close> and \<^verbatim>\<open>dict\<close>. A dict is an association
  list in insertion order, read with \<open>map_of\<close>. Of a float the program only uses its
  truth value.
\<close>

datatype pyfloat = Finite real | PosInf | NegInf | NaN

datatype json =
    JNull
  | JBool bool
  | JInt int
  | JFloat pyfloat
  | JStr string
  | JList "json list"
  | JDict "(string \<times> json) list"

text \<open>Truth value of a Python object, as \<^verbatim>\<open>if x:\<close> and \<^verbatim>\<open>x or y\<close> take it.\<close>

fun truthy :: "json \<Rightarrow> bool" where
  "truthy JNull = False"
| "truthy (JBool b) = b"
| "truthy (JInt i) = (i \<noteq> 0)"
| "truthy (JFloat f) = (f \<noteq> Finite 0)"
| "truthy (JStr s) = (s \<noteq> [])"
| "truthy (JList xs) = (xs \<noteq> [])"
| "truthy (JDict kvs) = (kvs \<noteq> [])"

text \<open>\<^verbatim>\<open>x.get(k, d)\<close>: only a dict has the method.\<close>

fun py_get :: "json \<Rightarrow> string \<Rightarrow> json \<Rightarrow> pyerr + json" where
  "py_get (JDict kvs) k d = Inr (case map_of kvs k of Some v \<Rightarrow> v | None \<Rightarrow> d)"
| "py_get _ k d = Inl AttributeError"

text \<open>
  \<^verbatim>\<open>x[k]\<close> with a string key: a missing key of a dict is a \<^verbatim>\<open>KeyError\<close>, and a
  list, a string or a scalar under a string key is a \<^verbatim>\<open>TypeError\<close>.
\<close>

fun py_index :: "json \<Rightarrow> string \<Rightarrow> pyerr + json" where
  "py_index (JDict kvs) k = (case map_of kvs k of Some v \<Rightarrow> Inr v | None \<Rightarrow> Inl KeyError)"
| "py_index _ k = Inl TypeError"

text \<open>
  \<^verbatim>\<open>for x in v\<close>: a list yields its elements, a string its characters, a dict its
  keys; anything else is not iterable.
\<close>

fun py_iter :: "json \<Rightarrow> pyerr + json list" where
  "py_iter (JList xs) = Inr xs"
| "py_iter (JStr s) = Inr (map (\<lambda>c. JStr [c]) s)"
| "py_iter (JDict kvs) = Inr (map (\<lambda>kv. JStr (fst kv)) kvs)"
| "py_iter _ = Inl TypeError"

subsection \<open>Strings\<close>

text \<open>
  A \<open>char\<close> is a code point below 256, so a \<open>string\<close> is Python text in that
  range. There \<^verbatim>\<open>str.isspace\<close>, which \<^verbatim>\<open>str.strip()\<close> uses, holds of the
  code points 9 to 13, 28 to 32, 133 and 160, and \<^verbatim>\<open>str.lower()\<close> adds 32 to the
  letters A to Z (65 to 90) and to the capital letters 192 to 222 other than the
  multiplication sign 215; it leaves every other code point as it is.
\<close>

definition is_space :: "char \<Rightarrow> bool" where
  "is_space c =
     (let n = (of_char c :: nat)
      in (9 \<le> n \<and> n \<le> 13) \<or> (28 \<le> n \<and> n \<le> 32) \<or> n = 133 \<or> n = 160)"

definition strip :: "string \<Rightarrow> string" where
  "strip s = rev (dropWhile is_space (rev (dropWhile is_space s)))"

definition lower_char :: "char \<Rightarrow> char" where
  "lower_char c =
     (let n = (of_char c :: nat)
      in if (65 \<le> n \<and> n \<le> 90) \<or> (192 \<le> n \<and> n \<le> 222 \<and> n \<noteq> 215)
         then char_of (n + 32) else c)"

definition lower :: "string \<Rightarrow> string" where
  "lower s = map lower_char s"

text \<open>\<^verbatim>\<open>x.lower()\<close> on a value that came out of JSON: only a string has the method.\<close>

fun py_lower :: "json \<Rightarrow> pyerr + string" where
  "py_lower (JStr s) = Inr (lower s)"
| "py_lower _ = Inl AttributeError"

section \<open>Commands, console output and the run\<close>

text \<open>
  \<^verbatim>\<open>run_cmd\<close> hands a command line to a shell and returns
  \<^verbatim>\<open>(stdout, stderr, returncode)\<close>. The shell and the clusters behind it are a
  parameter of the model: a \<open>runner\<close> answers a command in a world \<open>'w\<close> and gives
  the world after it. The JSON parser is a parameter too: \<open>loads s = None\<close> stands for
  \<^verbatim>\<open>json.JSONDecodeError\<close>.
\<close>

type_synonym response = "string \<times> string \<times> int"

type_synonym 'w runner = "string \<Rightarrow> 'w \<Rightarrow> response \<times> 'w"

type_synonym loader = "string \<Rightarrow> json option"

text \<open>
  One constructor for each \<^verbatim>\<open>print\<close> call of the source, carrying the values its
  f-string interpolates.
\<close>

datatype msg =
    BlankRule
  | ReportTitle
  | Rule
  | SummaryTitle
  | SummaryLine bool string
  | Overall bool
  | Test1Header
  | PodNotRunning
  | ErrorDetail string
  | PodRunning
  | HttpOk
  | UrlLine string
  | ResponseLine string
  | Test1Passed
  | HttpFailed
  | CommandLine string
  | ReturnCodeLine int
  | StdoutLine string
  | StderrLine string
  | CouldNotListServices string
  | ServicesParseFailed string
  | Test2Header
  | ExposedHeader string
  | SvcLine json json json
  | NonAllowedHeader
  | NoPublic string
  | Test2Passed
  | Test3Header
  | CouldNotListNsgs string string
  | NsgParseFailed string string
  | NoNsgs string string
  | NsgSummary string json nat nat
  | Test3Passed
  | Test3Warnings

text \<open>What a run does that can be observed, in order: commands executed and lines printed.\<close>

datatype event = Run string | Print msg

text \<open>
  A method of the verifier, run in a world: it returns a value or raises, and leaves the
  events it produced and the world after it.
\<close>

type_synonym ('a, 'w) io = "'w \<Rightarrow> (pyerr + 'a) \<times> event list \<times> 'w"

definition err_bind :: "pyerr + 'a \<Rightarrow> ('a \<Rightarrow> pyerr + 'b) \<Rightarrow> pyerr + 'b" where
  "err_bind x f = (case x of Inl e \<Rightarrow> Inl e | Inr a \<Rightarrow> f a)"

definition io_return :: "'a \<Rightarrow> ('a, 'w) io" where
  "io_return a w = (Inr a, [], w)"

definition io_lift :: "pyerr + 'a \<Rightarrow> ('a, 'w) io" where
  "io_lift x w = (x, [], w)"

definition io_bind :: "('a, 'w) io \<Rightarrow> ('a \<Rightarrow> ('b, 'w) io) \<Rightarrow> ('b, 'w) io" where
  "io_bind m f w =
     (case m w of
        (Inl e, ev, w') \<Rightarrow> (Inl e, ev, w')
      | (Inr a, ev, w') \<Rightarrow> (case f a w' of (x, ev', w'') \<Rightarrow> (x, ev @ ev', w'')))"

definition io_seq :: "(unit, 'w) io \<Rightarrow> ('b, 'w) io \<Rightarrow> ('b, 'w) io" where
  "io_seq m k = io_bind m (\<lambda>_. k)"

definition io_print :: "msg \<Rightarrow> (unit, 'w) io" where
  "io_print m w = (Inr (), [Print m], w)"

definition io_prints :: "msg list \<Rightarrow> (unit, 'w) io" where
  "io_prints ms w = (Inr (), map Print ms, w)"

definition io_when :: "bool \<Rightarrow> (unit, 'w) io \<Rightarrow> (unit, 'w) io" where
  "io_when b m = (if b then m else io_return ())"

text \<open>The commands a run executed, in order.\<close>

fun commands :: "event list \<Rightarrow> string list" where
  "commands [] = []"
| "commands (Run c # evs) = c # commands evs"
| "commands (Print m # evs) = commands evs"

section \<open>The verifier\<close>

definition C2_VALIDATION_IP :: string where
  "C2_VALIDATION_IP = ''13.91.126.20''"

record K8sConnectivityVerifier =
  c1_context :: string
  c2_context :: string
  results :: "(string \<times> bool) list"

definition run_cmd :: "'w runner \<Rightarrow> string \<Rightarrow> (response, 'w) io" where
  "run_cmd r cmd w = (case r cmd w of (resp, w') \<Rightarrow> (Inr resp, [Run cmd], w'))"

definition full_cmd :: "string \<Rightarrow> string \<Rightarrow> string \<Rightarrow> string \<Rightarrow> string" where
  "full_cmd context namespace pod cmd =
     ''kubectl --context '' @ context @ '' -n '' @ namespace @ '' exec '' @ pod @ '' -- '' @ cmd"

definition exec_in_pod ::
  "'w runner \<Rightarrow> string \<Rightarrow> string \<Rightarrow> string \<Rightarrow> string \<Rightarrow> (response, 'w) io" where
  "exec_in_pod r context namespace pod cmd = run_cmd r (full_cmd context namespace pod cmd)"

subsection \<open>Test 1: intended connectivity\<close>

definition get_dbg_cmd :: "K8sConnectivityVerifier \<Rightarrow> string" where
  "get_dbg_cmd self =
     ''kubectl --context '' @ c1_context self @ '' -n boutique-core get pod net-debug ''
     @ ''-o jsonpath='' @ [CHR 0x27] @ ''{.status.phase}'' @ [CHR 0x27]"

definition url :: string where
  "url = ''http://'' @ C2_VALIDATION_IP @ '':80''"

definition curl_cmd :: string where
  "curl_cmd = ''curl -s -o - --max-time 5 '' @ url"

definition test_intended_connectivity ::
  "'w runner \<Rightarrow> K8sConnectivityVerifier \<Rightarrow> (bool, 'w) io" where
  "test_intended_connectivity r self =
     io_seq (io_print Test1Header) (io_seq (io_print Rule)
     (io_bind (run_cmd r (get_dbg_cmd self)) (\<lambda>(stdout, stderr, rc).
        let phase = strip stdout in
        if rc \<noteq> 0 \<or> phase \<noteq> ''Running'' then
          io_seq (io_print PodNotRunning)
         (io_seq (io_when (stderr \<noteq> []) (io_print (ErrorDetail (strip stderr))))
                 (io_return False))
        else
          io_seq (io_print PodRunning)
         (io_bind (exec_in_pod r (c1_context self) ''boutique-core'' ''net-debug'' curl_cmd)
            (\<lambda>(stdout, stderr, rc).
               let body = strip stdout in
               if rc = 0 \<and> sublist ''OK-C2'' body then
                 io_seq (io_prints [HttpOk, UrlLine url, ResponseLine body, Test1Passed])
                        (io_return True)
               else
                 io_seq (io_prints [HttpFailed, UrlLine url, CommandLine curl_cmd,
                                    ReturnCodeLine rc, StdoutLine (strip stdout),
                                    StderrLine (strip stderr)])
                        (io_return False))))))"

subsection \<open>Test 2: public exposure\<close>

text \<open>
  The dict \<^verbatim>\<open>{"name": ..., "namespace": ..., "ip": ...}\<close> appended for an ingress
  entry. Its values are whatever the JSON holds at those places.
\<close>

record endpoint =
  name :: json
  namespace :: json
  ip :: json

text \<open>The loop over the ingress entries of one service (source lines 125 to 134).\<close>

fun ingress_records :: "json \<Rightarrow> json list \<Rightarrow> pyerr + endpoint list" where
  "ingress_records svc [] = Inr []"
| "ingress_records svc (ing # rest) =
     err_bind (py_get ing ''ip'' JNull) (\<lambda>ipv.
       if truthy ipv then
         err_bind (py_index svc ''metadata'') (\<lambda>md1.
         err_bind (py_index md1 ''name'') (\<lambda>nm.
         err_bind (py_index svc ''metadata'') (\<lambda>md2.
         err_bind (py_index md2 ''namespace'') (\<lambda>ns.
         err_bind (ingress_records svc rest) (\<lambda>more.
           Inr (\<lparr>name = nm, namespace = ns, ip = ipv\<rparr> # more))))))
       else ingress_records svc rest)"

text \<open>The body of the loop over \<^verbatim>\<open>items\<close>, for one service (source lines 120 to 134).\<close>

definition svc_records :: "json \<Rightarrow> pyerr + endpoint list" where
  "svc_records svc =
     err_bind (py_get svc ''spec'' (JDict [])) (\<lambda>spec.
     err_bind (py_get spec ''type'' JNull) (\<lambda>ty.
       if ty \<noteq> JStr ''LoadBalancer'' then Inr []
       else
         err_bind (py_get svc ''status'' (JDict [])) (\<lambda>status.
         err_bind (py_get status ''loadBalancer'' (JDict [])) (\<lambda>lb_status.
         err_bind (py_get lb_status ''ingress'' (JList [])) (\<lambda>ingress.
         err_bind (py_iter (if truthy ingress then ingress else JList [])) (\<lambda>ings.
           ingress_records svc ings))))))"

fun collect_public :: "json list \<Rightarrow> pyerr + endpoint list" where
  "collect_public [] = Inr []"
| "collect_public (svc # rest) =
     err_bind (svc_records svc) (\<lambda>recs.
     err_bind (collect_public rest) (\<lambda>more. Inr (recs @ more)))"

definition list_cmd :: "string \<Rightarrow> string" where
  "list_cmd context = ''kubectl --context '' @ context @ '' get svc -A -o json''"

definition list_public_loadbalancers ::
  "'w runner \<Rightarrow> loader \<Rightarrow> string \<Rightarrow> (endpoint list, 'w) io" where
  "list_public_loadbalancers r loads context =
     io_bind (run_cmd r (list_cmd context)) (\<lambda>(stdout, stderr, rc).
       if rc \<noteq> 0 then
         io_seq (io_print (CouldNotListServices context))
        (io_seq (io_when (stderr \<noteq> []) (io_print (ErrorDetail (strip stderr))))
                (io_return []))
       else
         (case loads stdout of
            None \<Rightarrow> io_seq (io_print (ServicesParseFailed context)) (io_return [])
          | Some services \<Rightarrow>
              io_lift (err_bind (py_get services ''items'' (JList [])) (\<lambda>items.
                       err_bind (py_iter items) collect_public))))"

definition allowed_keywords :: "string list" where
  "allowed_keywords = [''frontend'', ''c2-validation'']"

text \<open>\<^verbatim>\<open>any(kw in s["name"].lower() for kw in allowed_keywords)\<close>, lazily.\<close>

fun any_keyword :: "string list \<Rightarrow> endpoint \<Rightarrow> pyerr + bool" where
  "any_keyword [] s = Inr False"
| "any_keyword (kw # kws) s =
     err_bind (py_lower (name s)) (\<lambda>l.
       if sublist kw l then Inr True else any_keyword kws s)"

text \<open>The list comprehension \<^verbatim>\<open>critical_public\<close> (source lines 156 to 160).\<close>

fun critical_public :: "endpoint list \<Rightarrow> pyerr + endpoint list" where
  "critical_public [] = Inr []"
| "critical_public (s # rest) =
     err_bind (any_keyword allowed_keywords s) (\<lambda>allowed.
     err_bind (critical_public rest) (\<lambda>more.
       Inr (if \<not> allowed then s # more else more)))"

definition svc_line :: "endpoint \<Rightarrow> msg" where
  "svc_line svc = SvcLine (namespace svc) (name svc) (ip svc)"

text \<open>The loop over the two clusters (source lines 146 to 170).\<close>

fun exposure_loop :: "'w runner \<Rightarrow> loader \<Rightarrow> (string \<times> string) list \<Rightarrow> (bool, 'w) io" where
  "exposure_loop r loads [] = io_seq (io_print Test2Passed) (io_return True)"
| "exposure_loop r loads ((context, cluster_name) # rest) =
     io_bind (list_public_loadbalancers r loads context) (\<lambda>public_svcs.
       if public_svcs \<noteq> [] then
         io_seq (io_print (ExposedHeader cluster_name))
        (io_seq (io_prints (map svc_line public_svcs))
        (io_bind (io_lift (critical_public public_svcs)) (\<lambda>critical.
           if critical \<noteq> [] then
             io_seq (io_print NonAllowedHeader)
            (io_seq (io_prints (map svc_line critical))
                    (io_return False))
           else exposure_loop r loads rest)))
       else
         io_seq (io_print (NoPublic cluster_name)) (exposure_loop r loads rest))"

definition test_public_exposure ::
  "'w runner \<Rightarrow> loader \<Rightarrow> K8sConnectivityVerifier \<Rightarrow> (bool, 'w) io" where
  "test_public_exposure r loads self =
     io_seq (io_print Test2Header) (io_seq (io_print Rule)
       (exposure_loop r loads [(c1_context self, ''C1''), (c2_context self, ''C2'')]))"

subsection \<open>Test 3: network isolation\<close>

text \<open>\<^verbatim>\<open>[r for r in rules if r.get("access") == a]\<close>, over the elements of \<open>rules\<close>.\<close>

fun select_access :: "string \<Rightarrow> json list \<Rightarrow> pyerr + json list" where
  "select_access a [] = Inr []"
| "select_access a (rule # rest) =
     err_bind (py_get rule ''access'' JNull) (\<lambda>v.
     err_bind (select_access a rest) (\<lambda>more.
       Inr (if v = JStr a then rule # more else more)))"

text \<open>The loop over the rule groups of one cluster (source lines 211 to 219).\<close>

fun nsg_loop :: "string \<Rightarrow> json list \<Rightarrow> (unit, 'w) io" where
  "nsg_loop cluster_name [] = io_return ()"
| "nsg_loop cluster_name (nsg # rest) =
     io_bind (io_lift (py_get nsg ''name'' (JStr ''<unknown>''))) (\<lambda>nm.
     io_bind (io_lift (py_get nsg ''securityRules'' (JList []))) (\<lambda>rules.
     io_bind (io_lift (err_bind (py_iter rules) (select_access ''Allow''))) (\<lambda>allow_rules.
     io_bind (io_lift (err_bind (py_iter rules) (select_access ''Deny''))) (\<lambda>deny_rules.
       io_seq (io_print (NsgSummary cluster_name nm (length allow_rules) (length deny_rules)))
              (nsg_loop cluster_name rest)))))"

definition nsg_cmd :: "string \<Rightarrow> string" where
  "nsg_cmd rg = ''az network nsg list --resource-group '' @ rg @ '' -o json''"

text \<open>
  The loop over \<^verbatim>\<open>cluster_nsg_config\<close> (source lines 189 to 219); the local
  \<^verbatim>\<open>ok\<close> is an argument.
\<close>

fun isolation_loop ::
  "'w runner \<Rightarrow> loader \<Rightarrow> bool \<Rightarrow> (string \<times> string \<times> string) list \<Rightarrow> (bool, 'w) io" where
  "isolation_loop r loads ok [] = io_return ok"
| "isolation_loop r loads ok ((context, cluster_name, rg) # rest) =
     io_bind (run_cmd r (nsg_cmd rg)) (\<lambda>(stdout, stderr, rc).
       if rc \<noteq> 0 then
         io_seq (io_print (CouldNotListNsgs cluster_name rg))
        (io_seq (io_when (stderr \<noteq> []) (io_print (ErrorDetail (strip stderr))))
                (isolation_loop r loads False rest))
       else
         (case loads stdout of
            None \<Rightarrow>
              io_seq (io_print (NsgParseFailed cluster_name rg))
                     (isolation_loop r loads False rest)
          | Some nsgs \<Rightarrow>
              if \<not> truthy nsgs then
                io_seq (io_print (NoNsgs cluster_name rg)) (isolation_loop r loads ok rest)
              else
                io_bind (io_lift (py_iter nsgs)) (\<lambda>groups.
                  io_seq (nsg_loop cluster_name groups) (isolation_loop r loads ok rest))))"

definition cluster_nsg_config ::
  "K8sConnectivityVerifier \<Rightarrow> (string \<times> string \<times> string) list" where
  "cluster_nsg_config self =
     [(c1_context self, ''C1'', ''rg-c1-eastus''), (c2_context self, ''C2'', ''rg-c2-westus'')]"

definition test_network_isolation ::
  "'w runner \<Rightarrow> loader \<Rightarrow> K8sConnectivityVerifier \<Rightarrow> (bool, 'w) io" where
  "test_network_isolation r loads self =
     io_seq (io_print Test3Header) (io_seq (io_print Rule)
    (io_bind (isolation_loop r loads True (cluster_nsg_config self)) (\<lambda>ok.
       io_seq (io_print (if ok then Test3Passed else Test3Warnings)) (io_return ok))))"

subsection \<open>Orchestrator\<close>

text \<open>
  \<^verbatim>\<open>verify_all\<close> returns the dict \<^verbatim>\<open>results\<close> and stores it in
  \<^verbatim>\<open>self.results\<close>: the model returns the dict and the verifier after the call.
\<close>

definition verify_all ::
  "'w runner \<Rightarrow> loader \<Rightarrow> K8sConnectivityVerifier
     \<Rightarrow> ((string \<times> bool) list \<times> K8sConnectivityVerifier, 'w) io" where
  "verify_all r loads self =
     io_seq (io_prints [BlankRule, ReportTitle, Rule])
    (io_bind (test_intended_connectivity r self) (\<lambda>t1.
     io_bind (test_public_exposure r loads self) (\<lambda>t2.
     io_bind (test_network_isolation r loads self) (\<lambda>t3.
       let res = [(''intended_connectivity'', t1), (''public_exposure'', t2),
                  (''network_isolation'', t3)];
           self' = self\<lparr>results := res\<rparr>
       in
         io_seq (io_prints [BlankRule, SummaryTitle, Rule])
        (io_seq (io_prints (map (\<lambda>(test, passed). SummaryLine passed test) res))
        (let all_passed = list_all (\<lambda>passed. passed) (map snd res) in
         io_seq (io_print (Overall all_passed))
                (io_return (res, self'))))))))"

section \<open>Reading a listing\<close>

text \<open>
  Accessors used to state the properties: the value under a key of a JSON object, and the
  name, the rules and the number of rules with a given \<^verbatim>\<open>access\<close> value of a
  rule group.
\<close>

definition field :: "json \<Rightarrow> string \<Rightarrow> json option" where
  "field v k = (case v of JDict kvs \<Rightarrow> map_of kvs k | _ \<Rightarrow> None)"

definition ingress_ip :: "json \<Rightarrow> json" where
  "ingress_ip ing = (case field ing ''ip'' of Some v \<Rightarrow> v | None \<Rightarrow> JNull)"

definition group_name :: "json \<Rightarrow> json" where
  "group_name g = (case field g ''name'' of Some v \<Rightarrow> v | None \<Rightarrow> JStr ''<unknown>'')"

definition group_rules :: "json \<Rightarrow> json list" where
  "group_rules g = (case field g ''securityRules'' of Some (JList rs) \<Rightarrow> rs | _ \<Rightarrow> [])"

definition access_count :: "string \<Rightarrow> json \<Rightarrow> nat" where
  "access_count a g = length (filter (\<lambda>x. field x ''access'' = Some (JStr a)) (group_rules g))"

text \<open>
  The shape of a listing of rule groups as the cloud CLI prints it: a list of JSON objects,
  each with \<^verbatim>\<open>securityRules\<close> missing or a list of JSON objects.
\<close>

fun is_object :: "json \<Rightarrow> bool" where
  "is_object (JDict kvs) = True"
| "is_object _ = False"

definition well_formed_group :: "json \<Rightarrow> bool" where
  "well_formed_group g =
     (is_object g \<and>
      (case field g ''securityRules'' of
         None \<Rightarrow> True
       | Some (JList rs) \<Rightarrow> list_all is_object rs
       | Some _ \<Rightarrow> False))"

definition rule_group_listing :: "json \<Rightarrow> bool" where
  "rule_group_listing nsgs =
     (case nsgs of JList groups \<Rightarrow> list_all well_formed_group groups | _ \<Rightarrow> False)"

text \<open>
  What the specification says the isolation check reports for one cluster, given the
  response to its listing command: a warning when the listing fails or does not parse, a
  warning for an empty list, and otherwise one summary for each rule group, in order, with
  the number of rules whose \<^verbatim>\<open>access\<close> is \<^verbatim>\<open>Allow\<close> and the number of those
  whose \<^verbatim>\<open>access\<close> is \<^verbatim>\<open>Deny\<close>.
\<close>

definition group_summary :: "string \<Rightarrow> json \<Rightarrow> event" where
  "group_summary cluster_name g =
     Print (NsgSummary cluster_name (group_name g)
              (access_count ''Allow'' g) (access_count ''Deny'' g))"

definition expected_cluster_report :: "loader \<Rightarrow> string \<Rightarrow> string \<Rightarrow> response \<Rightarrow> event list" where
  "expected_cluster_report loads cluster_name rg resp =
     (case resp of (out, err, rc) \<Rightarrow>
        if rc \<noteq> 0 then
          Print (CouldNotListNsgs cluster_name rg)
            # (if err = [] then [] else [Print (ErrorDetail (strip err))])
        else
          (case loads out of
             None \<Rightarrow> [Print (NsgParseFailed cluster_name rg)]
           | Some (JList groups) \<Rightarrow>
               if groups = [] then [Print (NoNsgs cluster_name rg)]
               else map (group_summary cluster_name) groups
           | Some _ \<Rightarrow> []))"

section \<open>A recorded run\<close>

text \<open>
  Concrete inputs for the examples: a runner that replays recorded responses in order
  whatever the command, the verifier of the script's \<^verbatim>\<open>__main__\<close> block, and
  \<^verbatim>\<open>json.loads\<close> on the documents the examples use (any other text of the
  examples is not JSON).
\<close>

definition scripted :: "response list runner" where
  "scripted cmd w = (case w of [] \<Rightarrow> (('''', '''', 1), []) | x # xs \<Rightarrow> (x, xs))"

definition verifier :: K8sConnectivityVerifier where
  "verifier = \<lparr>c1_context = ''aks-c1-eastus'', c2_context = ''aks-c2-westus'', results = []\<rparr>"

definition no_services_doc :: string where
  \<open>no_services_doc = ''{"items": []}''\<close>

definition exposed_doc :: string where
  \<open>exposed_doc = ''{"items": [{"metadata": {"name": "Frontend-External", "namespace": "shop"}, "spec": {"type": "LoadBalancer"}, "status": {"loadBalancer": {"ingress": [{"ip": "1.2.3.4"}]}}}, {"metadata": {"name": "admin-svc", "namespace": "ops"}, "spec": {"type": "LoadBalancer"}, "status": {"loadBalancer": {"ingress": [{"ip": "5.6.7.8"}]}}}]}''\<close>

definition exposed_json :: json where
  "exposed_json = JDict [(''items'', JList [
     JDict [(''metadata'', JDict [(''name'', JStr ''Frontend-External''), (''namespace'', JStr ''shop'')]),
            (''spec'', JDict [(''type'', JStr ''LoadBalancer'')]),
            (''status'', JDict [(''loadBalancer'', JDict [(''ingress'', JList [JDict [(''ip'', JStr ''1.2.3.4'')]])])])],
     JDict [(''metadata'', JDict [(''name'', JStr ''admin-svc''), (''namespace'', JStr ''ops'')]),
            (''spec'', JDict [(''type'', JStr ''LoadBalancer'')]),
            (''status'', JDict [(''loadBalancer'', JDict [(''ingress'', JList [JDict [(''ip'', JStr ''5.6.7.8'')]])])])]])]"

definition frontend_doc :: string where
  \<open>frontend_doc = ''{"items": [{"metadata": {"name": "Frontend-External", "namespace": "shop"}, "spec": {"type": "LoadBalancer"}, "status": {"loadBalancer": {"ingress": [{"ip": "1.2.3.4"}]}}}]}''\<close>

definition frontend_json :: json where
  "frontend_json = JDict [(''items'', JList [
     JDict [(''metadata'', JDict [(''name'', JStr ''Frontend-External''), (''namespace'', JStr ''shop'')]),
            (''spec'', JDict [(''type'', JStr ''LoadBalancer'')]),
            (''status'', JDict [(''loadBalancer'', JDict [(''ingress'', JList [JDict [(''ip'', JStr ''1.2.3.4'')]])])])]])]"

definition nsg_doc :: string where
  \<open>nsg_doc = ''[{"name": "nsg1", "securityRules": [{"access": "Allow"}, {"access": "Deny"}, {"access": "Allow"}]}]''\<close>

definition nsg_json :: json where
  "nsg_json = JList [JDict [(''name'', JStr ''nsg1''),
     (''securityRules'', JList [JDict [(''access'', JStr ''Allow'')], JDict [(''access'', JStr ''Deny'')],
                                JDict [(''access'', JStr ''Allow'')]])]]"

definition sample_loads :: loader where
  "sample_loads s =
     (if s = no_services_doc then Some (JDict [(''items'', JList [])])
      else if s = exposed_doc then Some exposed_json
      else if s = frontend_doc then Some frontend_json
      else if s = ''[]'' then Some (JList [])
      else if s = nsg_doc then Some nsg_json
      else None)"

section \<open>Auxiliary facts\<close>

lemmas io_defs = io_bind_def io_seq_def io_print_def io_prints_def io_return_def io_lift_def
  io_when_def run_cmd_def

lemma io_bind_result:
  "io_bind m f w = (Inr b, ev, w2) \<longleftrightarrow>
     (\<exists>a ev1 w1 ev2. m w = (Inr a, ev1, w1) \<and> f a w1 = (Inr b, ev2, w2) \<and> ev = ev1 @ ev2)"
  by (auto simp: io_bind_def split: prod.splits sum.splits)

lemma commands_append [simp]: "commands (xs @ ys) = commands xs @ commands ys"
  by (induction xs rule: commands.induct) auto

lemma commands_map_Print [simp]: "commands (map Print ms) = []"
  by (induction ms) auto

lemma commands_map_Print_comp [simp]: "commands (map (Print \<circ> f) xs) = []"
  by (induction xs) auto

lemma verifier_simps:
  "c1_context verifier = ''aks-c1-eastus''" "c2_context verifier = ''aks-c2-westus''"
  by (simp_all add: verifier_def)

lemma sample_loads_simps:
  "sample_loads no_services_doc = Some (JDict [(''items'', JList [])])"
  "sample_loads exposed_doc = Some exposed_json"
  "sample_loads frontend_doc = Some frontend_json"
  "sample_loads ''not json'' = None"
  "sample_loads ''[]'' = Some (JList [])"
  "sample_loads nsg_doc = Some nsg_json"
  "sample_loads '''' = None"
  by (simp_all add: sample_loads_def no_services_doc_def exposed_doc_def frontend_doc_def
        nsg_doc_def)

lemma lower_samples:
  "lower ''Frontend-External'' = ''frontend-external''"
  "lower ''admin-svc'' = ''admin-svc''"
  by code_simp+

lemma sublist_samples:
  "sublist ''frontend'' ''frontend-external''"
  "\<not> sublist ''frontend'' ''admin-svc''"
  "\<not> sublist ''c2-validation'' ''admin-svc''"
  "sublist ''OK-C2'' (strip ''OK-C2 from C2'')"
  "\<not> sublist ''OK-C2'' (strip ''502 Bad Gateway'')"
  by code_simp+

lemma strip_samples:
  "strip ''Running\<newline>'' = ''Running''"
  "strip ''Pending'' = ''Pending''"
  by (simp_all add: strip_def is_space_def)

lemma strip_latin1:
  "strip (CHR 0xA0 # ''Running'' @ [CHR 0x85]) = ''Running''"
  by (simp add: strip_def is_space_def)

section \<open>Test 1: intended connectivity\<close>

lemma connectivity_returns:
  "\<exists>t ev w'. test_intended_connectivity r self w = (Inr t, ev, w')"
  by (auto simp: test_intended_connectivity_def io_defs exec_in_pod_def Let_def split: prod.splits)

lemma pending_run:
  "test_intended_connectivity scripted verifier ((''Pending'', '''', 0) # ws) =
     (Inr False,
      [Print Test1Header, Print Rule, Run (get_dbg_cmd verifier), Print PodNotRunning], ws)"
  by (simp add: test_intended_connectivity_def io_defs Let_def scripted_def strip_samples)

text \<open>
  A phase output with a no-break space after \<^verbatim>\<open>Running\<close> passes the gate, as
  \<^verbatim>\<open>str.strip()\<close> removes it: the probe runs.
\<close>

lemma gate_passes_after_nbsp:
  "test_intended_connectivity scripted verifier
     [(''Running'' @ [CHR 0xA0], '''', 0), (''OK-C2'', '''', 0)] =
     (Inr True,
      [Print Test1Header, Print Rule, Run (get_dbg_cmd verifier), Print PodRunning,
       Run (full_cmd (c1_context verifier) ''boutique-core'' ''net-debug'' curl_cmd),
       Print HttpOk, Print (UrlLine url), Print (ResponseLine ''OK-C2''), Print Test1Passed],
      [])"
  by (simp add: test_intended_connectivity_def io_defs exec_in_pod_def Let_def scripted_def
        strip_def is_space_def sublist_Cons_right)

text \<open>
  Claim C3. When the phase query exits with a non-zero code, or its stripped output is not
  \<^verbatim>\<open>Running\<close>, \<^verbatim>\<open>test_intended_connectivity\<close> returns \<^verbatim>\<open>False\<close>. The phase
  query is the only command the run executed, the world is the one that query left, and
  the HTTP probe command is not among the commands executed.
\<close>

theorem gate_blocks_probe:
  assumes "r (get_dbg_cmd self) w = ((out, err, rc), w')"
      and "rc \<noteq> 0 \<or> strip out \<noteq> ''Running''"
  shows "\<exists>ev. test_intended_connectivity r self w = (Inr False, ev, w') \<and>
              commands ev = [get_dbg_cmd self] \<and>
              full_cmd (c1_context self) ''boutique-core'' ''net-debug'' curl_cmd
                \<notin> set (commands ev)"
  using assms
  by (auto simp: test_intended_connectivity_def io_defs Let_def get_dbg_cmd_def full_cmd_def)

text \<open>
  A probe pod in phase \<^verbatim>\<open>Pending\<close>: the check fails after the phase query alone.
\<close>

theorem gate_blocks_probe_witness:
  "\<exists>ev. test_intended_connectivity scripted verifier [(''Pending'', '''', 0)] = (Inr False, ev, [])
        \<and> commands ev = [get_dbg_cmd verifier]
        \<and> full_cmd (c1_context verifier) ''boutique-core'' ''net-debug'' curl_cmd \<notin> set (commands ev)"
proof -
  have h1: "scripted (get_dbg_cmd verifier) [(''Pending'', '''', 0)] = ((''Pending'', '''', 0), [])"
    by (simp add: scripted_def)
  have h2: "(0::int) \<noteq> 0 \<or> strip ''Pending'' \<noteq> ''Running''"
    by (simp add: strip_samples)
  from gate_blocks_probe[of scripted verifier "[(''Pending'', '''', 0)]" "''Pending''" "''''" 0 "[]"]
    h1 h2 show ?thesis by blast
qed

text \<open>
  Claim C4. When the phase query exits with 0 and its stripped output is \<^verbatim>\<open>Running\<close>,
  the result of \<^verbatim>\<open>test_intended_connectivity\<close> is true exactly when the HTTP probe
  exits with 0 and its stripped output contains \<^verbatim>\<open>OK-C2\<close>.
\<close>

theorem probe_decides:
  assumes "r (get_dbg_cmd self) w = ((out, err, 0), w1)"
      and "strip out = ''Running''"
      and "r (full_cmd (c1_context self) ''boutique-core'' ''net-debug'' curl_cmd) w1
             = ((out2, err2, rc2), w2)"
  shows "fst (test_intended_connectivity r self w)
           = Inr (rc2 = 0 \<and> sublist ''OK-C2'' (strip out2))"
  using assms by (auto simp: test_intended_connectivity_def io_defs exec_in_pod_def Let_def)

text \<open>
  A running probe pod and a probe that answers \<^verbatim>\<open>OK-C2 from C2\<close>; then
  one that answers \<^verbatim>\<open>502 Bad Gateway\<close> with exit code 0.
\<close>

theorem probe_decides_witness:
  "fst (test_intended_connectivity scripted verifier
          [(''Running\<newline>'', '''', 0), (''OK-C2 from C2'', '''', 0)]) = Inr True
   \<and> fst (test_intended_connectivity scripted verifier
          [(''Running\<newline>'', '''', 0), (''502 Bad Gateway'', '''', 0)]) = Inr False"
proof -
  have h1: "scripted (get_dbg_cmd verifier)
              [(''Running\<newline>'', '''', 0), (''OK-C2 from C2'', '''', 0)]
            = ((''Running\<newline>'', '''', 0), [(''OK-C2 from C2'', '''', 0)])"
    by (simp add: scripted_def)
  have h2: "strip ''Running\<newline>'' = ''Running''"
    by (simp add: strip_samples)
  have h3: "scripted (full_cmd (c1_context verifier) ''boutique-core'' ''net-debug'' curl_cmd)
              [(''OK-C2 from C2'', '''', 0)] = ((''OK-C2 from C2'', '''', 0), [])"
    by (simp add: scripted_def)
  have A: "fst (test_intended_connectivity scripted verifier
          [(''Running\<newline>'', '''', 0), (''OK-C2 from C2'', '''', 0)]) = Inr True"
    using probe_decides[of scripted verifier _ "''Running\<newline>''" "''''"
            "[(''OK-C2 from C2'', '''', 0)]" "''OK-C2 from C2''" "''''" 0 "[]"] h1 h2 h3
    by (simp add: sublist_samples)
  have k1: "scripted (get_dbg_cmd verifier)
              [(''Running\<newline>'', '''', 0), (''502 Bad Gateway'', '''', 0)]
            = ((''Running\<newline>'', '''', 0), [(''502 Bad Gateway'', '''', 0)])"
    by (simp add: scripted_def)
  have k3: "scripted (full_cmd (c1_context verifier) ''boutique-core'' ''net-debug'' curl_cmd)
              [(''502 Bad Gateway'', '''', 0)] = ((''502 Bad Gateway'', '''', 0), [])"
    by (simp add: scripted_def)
  have B: "fst (test_intended_connectivity scripted verifier
          [(''Running\<newline>'', '''', 0), (''502 Bad Gateway'', '''', 0)]) = Inr False"
    using probe_decides[of scripted verifier _ "''Running\<newline>''" "''''"
            "[(''502 Bad Gateway'', '''', 0)]" "''502 Bad Gateway''" "''''" 0 "[]"] k1 h2 k3
    by (simp add: sublist_samples)
  from A B show ?thesis by (rule conjI)
qed

section \<open>Test 2: the listing of public load balancers\<close>

lemma list_public_commands:
  "list_public_loadbalancers r loads ctx w = (x, ev, w') \<Longrightarrow>
     commands ev = [list_cmd ctx] \<and> w' = snd (r (list_cmd ctx) w)"
  by (auto simp: list_public_loadbalancers_def io_defs split: prod.splits if_splits option.splits)

lemma list_public_failure:
  assumes "r (list_cmd ctx) w = ((out, err, rc), w1)" and "rc \<noteq> 0 \<or> loads out = None"
  shows "\<exists>ev. list_public_loadbalancers r loads ctx w = (Inr [], ev, w1)"
  using assms by (auto simp: list_public_loadbalancers_def io_defs)

lemma ingress_records_none:
  assumes "\<forall>ing\<in>set ings. \<exists>f. ing = JDict f" and "\<forall>ing\<in>set ings. \<not> truthy (ingress_ip ing)"
  shows "ingress_records svc ings = Inr []"
  using assms
proof (induction ings)
  case Nil
  then show ?case by simp
next
  case (Cons ing ings)
  then obtain f where f: "ing = JDict f" by auto
  from Cons have nt: "\<not> truthy (ingress_ip ing)" and ih: "ingress_records svc ings = Inr []"
    by simp_all
  from f nt have "\<not> truthy (case map_of f ''ip'' of Some v \<Rightarrow> v | None \<Rightarrow> JNull)"
    by (simp add: ingress_ip_def field_def split: option.splits)
  with f ih show ?case by (simp add: err_bind_def)
qed

lemma ingress_records_all:
  assumes "\<forall>ing\<in>set ings. \<exists>f. ing = JDict f"
      and "map_of kvs ''metadata'' = Some (JDict md)"
      and "map_of md ''name'' = Some nm" and "map_of md ''namespace'' = Some ns"
  shows "ingress_records (JDict kvs) ings =
           Inr (map (\<lambda>v. \<lparr>name = nm, namespace = ns, ip = v\<rparr>)
                    (filter truthy (map ingress_ip ings)))"
  using assms(1)
proof (induction ings)
  case Nil
  then show ?case by simp
next
  case (Cons ing ings)
  then obtain f where f: "ing = JDict f" by auto
  from Cons have ih: "ingress_records (JDict kvs) ings =
           Inr (map (\<lambda>v. \<lparr>name = nm, namespace = ns, ip = v\<rparr>)
                    (filter truthy (map ingress_ip ings)))"
    by simp
  have ipv: "py_get ing ''ip'' JNull = Inr (ingress_ip ing)"
    using f by (simp add: ingress_ip_def field_def)
  show ?case
    using ipv ih assms(2-4) by (simp add: err_bind_def)
qed

lemma collect_public_concat:
  assumes "\<forall>svc\<in>set items. \<exists>recs. svc_records svc = Inr recs"
  shows "collect_public items =
           Inr (concat (map (\<lambda>svc. case svc_records svc of Inr recs \<Rightarrow> recs | Inl e \<Rightarrow> []) items))"
  using assms
proof (induction items)
  case Nil
  then show ?case by simp
next
  case (Cons svc items)
  then obtain recs where r: "svc_records svc = Inr recs" by auto
  with Cons show ?case by (simp add: err_bind_def)
qed

lemma sample_listing:
  "list_public_loadbalancers scripted sample_loads ctx ((exposed_doc, '''', 0) # ws) =
     (Inr [\<lparr>name = JStr ''Frontend-External'', namespace = JStr ''shop'', ip = JStr ''1.2.3.4''\<rparr>,
           \<lparr>name = JStr ''admin-svc'', namespace = JStr ''ops'', ip = JStr ''5.6.7.8''\<rparr>],
      [Run (list_cmd ctx)], ws)"
  by (simp add: list_public_loadbalancers_def io_defs scripted_def sample_loads_simps
        exposed_json_def err_bind_def svc_records_def)

lemma empty_listing:
  "list_public_loadbalancers scripted sample_loads ctx ((no_services_doc, '''', 0) # ws) =
     (Inr [], [Run (list_cmd ctx)], ws)"
  by (simp add: list_public_loadbalancers_def io_defs scripted_def sample_loads_simps err_bind_def)

lemma frontend_listing:
  "list_public_loadbalancers scripted sample_loads ctx ((frontend_doc, '''', 0) # ws) =
     (Inr [\<lparr>name = JStr ''Frontend-External'', namespace = JStr ''shop'', ip = JStr ''1.2.3.4''\<rparr>],
      [Run (list_cmd ctx)], ws)"
  by (simp add: list_public_loadbalancers_def io_defs scripted_def sample_loads_simps
        frontend_json_def err_bind_def svc_records_def)

lemma unparseable_listing:
  "list_public_loadbalancers scripted sample_loads ctx ((''not json'', '''', 0) # ws) =
     (Inr [], [Run (list_cmd ctx), Print (ServicesParseFailed ctx)], ws)"
  by (simp add: list_public_loadbalancers_def io_defs scripted_def sample_loads_simps)

text \<open>
  Claim C10. For a service that is a JSON object, \<^verbatim>\<open>list_public_loadbalancers\<close>
  yields no record and does not raise when \<^verbatim>\<open>spec\<close> is missing, when the type is
  not \<^verbatim>\<open>LoadBalancer\<close>, when \<^verbatim>\<open>status\<close> or \<^verbatim>\<open>loadBalancer\<close> is missing,
  when \<^verbatim>\<open>ingress\<close> is missing or null, and when no ingress entry has a truthy
  \<^verbatim>\<open>ip\<close>. For a load balancer with metadata it yields one record for each ingress
  entry with a truthy \<^verbatim>\<open>ip\<close>, in order, with the name and namespace of the service
  and that address. The records of a listing are those of its items, concatenated.
  The fields that are present are JSON objects, and the ingress entries too.
\<close>

theorem list_public_missing_structure:
  "(svc = JDict kvs \<longrightarrow>
     (map_of kvs ''spec'' = None \<longrightarrow> svc_records svc = Inr []) \<and>
     (map_of kvs ''spec'' = Some (JDict sp) \<longrightarrow>
        (map_of sp ''type'' \<noteq> Some (JStr ''LoadBalancer'') \<longrightarrow> svc_records svc = Inr []) \<and>
        (map_of sp ''type'' = Some (JStr ''LoadBalancer'') \<longrightarrow>
           (map_of kvs ''status'' = None \<longrightarrow> svc_records svc = Inr []) \<and>
           (map_of kvs ''status'' = Some (JDict st) \<longrightarrow>
              (map_of st ''loadBalancer'' = None \<longrightarrow> svc_records svc = Inr []) \<and>
              (map_of st ''loadBalancer'' = Some (JDict lb) \<longrightarrow>
                 (map_of lb ''ingress'' = None \<or> map_of lb ''ingress'' = Some JNull
                    \<longrightarrow> svc_records svc = Inr []) \<and>
                 (map_of lb ''ingress'' = Some (JList ings) \<and>
                  (\<forall>ing\<in>set ings. \<exists>f. ing = JDict f) \<longrightarrow>
                    ((\<forall>ing\<in>set ings. \<not> truthy (ingress_ip ing))
                       \<longrightarrow> svc_records svc = Inr []) \<and>
                    (map_of kvs ''metadata'' = Some (JDict md) \<and>
                     map_of md ''name'' = Some nm \<and> map_of md ''namespace'' = Some ns
                       \<longrightarrow> svc_records svc =
                             Inr (map (\<lambda>v. \<lparr>name = nm, namespace = ns, ip = v\<rparr>)
                                      (filter truthy (map ingress_ip ings))))))))))
   \<and>
   (r (list_cmd ctx) w = ((out, err, 0), w1) \<and> loads out = Some (JDict body) \<and>
    map_of body ''items'' = Some (JList items) \<and>
    (\<forall>item\<in>set items. \<exists>recs. svc_records item = Inr recs)
    \<longrightarrow> list_public_loadbalancers r loads ctx w =
          (Inr (concat (map (\<lambda>item. case svc_records item of Inr recs \<Rightarrow> recs | Inl e \<Rightarrow> [])
                            items)),
           [Run (list_cmd ctx)], w1))"
proof (rule conjI)
  show "r (list_cmd ctx) w = ((out, err, 0), w1) \<and> loads out = Some (JDict body) \<and>
    map_of body ''items'' = Some (JList items) \<and>
    (\<forall>item\<in>set items. \<exists>recs. svc_records item = Inr recs)
    \<longrightarrow> list_public_loadbalancers r loads ctx w =
          (Inr (concat (map (\<lambda>item. case svc_records item of Inr recs \<Rightarrow> recs | Inl e \<Rightarrow> [])
                            items)),
           [Run (list_cmd ctx)], w1)"
    by (auto simp: list_public_loadbalancers_def io_bind_def run_cmd_def io_lift_def err_bind_def
          collect_public_concat)
next
  show "svc = JDict kvs \<longrightarrow>
     (map_of kvs ''spec'' = None \<longrightarrow> svc_records svc = Inr []) \<and>
     (map_of kvs ''spec'' = Some (JDict sp) \<longrightarrow>
        (map_of sp ''type'' \<noteq> Some (JStr ''LoadBalancer'') \<longrightarrow> svc_records svc = Inr []) \<and>
        (map_of sp ''type'' = Some (JStr ''LoadBalancer'') \<longrightarrow>
           (map_of kvs ''status'' = None \<longrightarrow> svc_records svc = Inr []) \<and>
           (map_of kvs ''status'' = Some (JDict st) \<longrightarrow>
              (map_of st ''loadBalancer'' = None \<longrightarrow> svc_records svc = Inr []) \<and>
              (map_of st ''loadBalancer'' = Some (JDict lb) \<longrightarrow>
                 (map_of lb ''ingress'' = None \<or> map_of lb ''ingress'' = Some JNull
                    \<longrightarrow> svc_records svc = Inr []) \<and>
                 (map_of lb ''ingress'' = Some (JList ings) \<and>
                  (\<forall>ing\<in>set ings. \<exists>f. ing = JDict f) \<longrightarrow>
                    ((\<forall>ing\<in>set ings. \<not> truthy (ingress_ip ing))
                       \<longrightarrow> svc_records svc = Inr []) \<and>
                    (map_of kvs ''metadata'' = Some (JDict md) \<and>
                     map_of md ''name'' = Some nm \<and> map_of md ''namespace'' = Some ns
                       \<longrightarrow> svc_records svc =
                             Inr (map (\<lambda>v. \<lparr>name = nm, namespace = ns, ip = v\<rparr>)
                                      (filter truthy (map ingress_ip ings)))))))))"
  proof (intro impI conjI; (elim conjE)?)
    assume "svc = JDict kvs" "map_of kvs ''spec'' = None"
    then show "svc_records svc = Inr []" by (simp add: svc_records_def err_bind_def)
  next
    assume "svc = JDict kvs" "map_of kvs ''spec'' = Some (JDict sp)"
      "map_of sp ''type'' \<noteq> Some (JStr ''LoadBalancer'')"
    then show "svc_records svc = Inr []"
      by (auto simp: svc_records_def err_bind_def split: option.splits)
  next
    assume "svc = JDict kvs" "map_of kvs ''spec'' = Some (JDict sp)"
      "map_of sp ''type'' = Some (JStr ''LoadBalancer'')" "map_of kvs ''status'' = None"
    then show "svc_records svc = Inr []" by (simp add: svc_records_def err_bind_def)
  next
    assume "svc = JDict kvs" "map_of kvs ''spec'' = Some (JDict sp)"
      "map_of sp ''type'' = Some (JStr ''LoadBalancer'')" "map_of kvs ''status'' = Some (JDict st)"
      "map_of st ''loadBalancer'' = None"
    then show "svc_records svc = Inr []" by (simp add: svc_records_def err_bind_def)
  next
    assume "svc = JDict kvs" "map_of kvs ''spec'' = Some (JDict sp)"
      "map_of sp ''type'' = Some (JStr ''LoadBalancer'')" "map_of kvs ''status'' = Some (JDict st)"
      "map_of st ''loadBalancer'' = Some (JDict lb)"
      "map_of lb ''ingress'' = None \<or> map_of lb ''ingress'' = Some JNull"
    then show "svc_records svc = Inr []" by (auto simp: svc_records_def err_bind_def)
  next
    assume "svc = JDict kvs" "map_of kvs ''spec'' = Some (JDict sp)"
      "map_of sp ''type'' = Some (JStr ''LoadBalancer'')" "map_of kvs ''status'' = Some (JDict st)"
      "map_of st ''loadBalancer'' = Some (JDict lb)"
      "map_of lb ''ingress'' = Some (JList ings)" "\<forall>ing\<in>set ings. \<exists>f. ing = JDict f"
      "\<forall>ing\<in>set ings. \<not> truthy (ingress_ip ing)"
    then show "svc_records svc = Inr []"
      by (simp add: svc_records_def err_bind_def ingress_records_none)
  next
    assume "svc = JDict kvs" "map_of kvs ''spec'' = Some (JDict sp)"
      "map_of sp ''type'' = Some (JStr ''LoadBalancer'')" "map_of kvs ''status'' = Some (JDict st)"
      "map_of st ''loadBalancer'' = Some (JDict lb)"
      "map_of lb ''ingress'' = Some (JList ings)" "\<forall>ing\<in>set ings. \<exists>f. ing = JDict f"
      "map_of kvs ''metadata'' = Some (JDict md)"
      "map_of md ''name'' = Some nm" "map_of md ''namespace'' = Some ns"
    then show "svc_records svc =
                 Inr (map (\<lambda>v. \<lparr>name = nm, namespace = ns, ip = v\<rparr>)
                          (filter truthy (map ingress_ip ings)))"
      by (simp add: svc_records_def err_bind_def ingress_records_all)
  qed
qed

text \<open>
  One service for each case: no \<^verbatim>\<open>spec\<close>, a \<^verbatim>\<open>ClusterIP\<close> service, load
  balancers without \<^verbatim>\<open>status\<close>, without \<^verbatim>\<open>loadBalancer\<close>, without
  \<^verbatim>\<open>ingress\<close>, with a null \<^verbatim>\<open>ingress\<close>, with entries that carry a host name or
  an empty address only, and one with two addresses; then a listing of two services.
\<close>

theorem list_public_missing_structure_witness:
  "svc_records (JDict [(''metadata'', JDict [(''name'', JStr ''a'')])]) = Inr []
   \<and> svc_records (JDict [(''spec'', JDict [(''type'', JStr ''ClusterIP'')])]) = Inr []
   \<and> svc_records (JDict [(''spec'', JDict [(''type'', JStr ''LoadBalancer'')])]) = Inr []
   \<and> svc_records (JDict [(''spec'', JDict [(''type'', JStr ''LoadBalancer'')]),
                          (''status'', JDict [])]) = Inr []
   \<and> svc_records (JDict [(''spec'', JDict [(''type'', JStr ''LoadBalancer'')]),
                          (''status'', JDict [(''loadBalancer'', JDict [])])]) = Inr []
   \<and> svc_records (JDict [(''spec'', JDict [(''type'', JStr ''LoadBalancer'')]),
                          (''status'', JDict [(''loadBalancer'',
                              JDict [(''ingress'', JNull)])])]) = Inr []
   \<and> svc_records (JDict [(''spec'', JDict [(''type'', JStr ''LoadBalancer'')]),
                          (''status'', JDict [(''loadBalancer'',
                              JDict [(''ingress'', JList [JDict [(''hostname'', JStr ''h'')],
                                                          JDict [(''ip'', JStr '''')]])])])]) = Inr []
   \<and> svc_records (JDict [(''metadata'', JDict [(''name'', JStr ''web''), (''namespace'', JStr ''shop'')]),
                          (''spec'', JDict [(''type'', JStr ''LoadBalancer'')]),
                          (''status'', JDict [(''loadBalancer'',
                              JDict [(''ingress'', JList [JDict [(''ip'', JStr ''1.1.1.1'')],
                                                          JDict [(''hostname'', JStr ''h'')],
                                                          JDict [(''ip'', JStr ''2.2.2.2'')]])])])])
       = Inr [\<lparr>name = JStr ''web'', namespace = JStr ''shop'', ip = JStr ''1.1.1.1''\<rparr>,
              \<lparr>name = JStr ''web'', namespace = JStr ''shop'', ip = JStr ''2.2.2.2''\<rparr>]
   \<and> list_public_loadbalancers scripted sample_loads ''aks-c1-eastus'' [(exposed_doc, '''', 0)]
       = (Inr [\<lparr>name = JStr ''Frontend-External'', namespace = JStr ''shop'', ip = JStr ''1.2.3.4''\<rparr>,
               \<lparr>name = JStr ''admin-svc'', namespace = JStr ''ops'', ip = JStr ''5.6.7.8''\<rparr>],
          [Run (list_cmd ''aks-c1-eastus'')], [])"
proof -
  let ?sp = "[(''type'', JStr ''LoadBalancer'')]"
  let ?lb = "(''spec'', JDict ?sp)"
  have w1: "svc_records (JDict [(''metadata'', JDict [(''name'', JStr ''a'')])]) = Inr []"
    using list_public_missing_structure[THEN conjunct1,
            of "JDict [(''metadata'', JDict [(''name'', JStr ''a'')])]"
               "[(''metadata'', JDict [(''name'', JStr ''a'')])]"]
    by simp
  have w2: "svc_records (JDict [(''spec'', JDict [(''type'', JStr ''ClusterIP'')])]) = Inr []"
    using list_public_missing_structure[THEN conjunct1,
            of "JDict [(''spec'', JDict [(''type'', JStr ''ClusterIP'')])]"
               "[(''spec'', JDict [(''type'', JStr ''ClusterIP'')])]"
               "[(''type'', JStr ''ClusterIP'')]"]
    by simp
  have w3: "svc_records (JDict [?lb]) = Inr []"
    using list_public_missing_structure[THEN conjunct1, of "JDict [?lb]" "[?lb]" ?sp]
    by simp
  have w4: "svc_records (JDict [?lb, (''status'', JDict [])]) = Inr []"
    using list_public_missing_structure[THEN conjunct1,
            of "JDict [?lb, (''status'', JDict [])]" "[?lb, (''status'', JDict [])]" ?sp "[]"]
    by simp
  have w5: "svc_records (JDict [?lb, (''status'', JDict [(''loadBalancer'', JDict [])])]) = Inr []"
    using list_public_missing_structure[THEN conjunct1,
            of "JDict [?lb, (''status'', JDict [(''loadBalancer'', JDict [])])]"
               "[?lb, (''status'', JDict [(''loadBalancer'', JDict [])])]" ?sp
               "[(''loadBalancer'', JDict [])]" "[]"]
    by simp
  have w6: "svc_records (JDict [?lb, (''status'', JDict [(''loadBalancer'',
                              JDict [(''ingress'', JNull)])])]) = Inr []"
    using list_public_missing_structure[THEN conjunct1,
            of "JDict [?lb, (''status'', JDict [(''loadBalancer'', JDict [(''ingress'', JNull)])])]"
               "[?lb, (''status'', JDict [(''loadBalancer'', JDict [(''ingress'', JNull)])])]" ?sp
               "[(''loadBalancer'', JDict [(''ingress'', JNull)])]" "[(''ingress'', JNull)]"]
    by simp
  let ?ings7 = "[JDict [(''hostname'', JStr ''h'')], JDict [(''ip'', JStr '''')]]"
  have w7: "svc_records (JDict [?lb, (''status'', JDict [(''loadBalancer'',
                              JDict [(''ingress'', JList ?ings7)])])]) = Inr []"
    using list_public_missing_structure[THEN conjunct1,
            of "JDict [?lb, (''status'', JDict [(''loadBalancer'', JDict [(''ingress'', JList ?ings7)])])]"
               "[?lb, (''status'', JDict [(''loadBalancer'', JDict [(''ingress'', JList ?ings7)])])]" ?sp
               "[(''loadBalancer'', JDict [(''ingress'', JList ?ings7)])]"
               "[(''ingress'', JList ?ings7)]" ?ings7]
    by (simp add: ingress_ip_def field_def)
  let ?ings8 = "[JDict [(''ip'', JStr ''1.1.1.1'')], JDict [(''hostname'', JStr ''h'')],
                 JDict [(''ip'', JStr ''2.2.2.2'')]]"
  let ?md = "[(''name'', JStr ''web''), (''namespace'', JStr ''shop'')]"
  let ?kvs8 = "[(''metadata'', JDict ?md), ?lb,
                (''status'', JDict [(''loadBalancer'', JDict [(''ingress'', JList ?ings8)])])]"
  have w8: "svc_records (JDict ?kvs8)
       = Inr [\<lparr>name = JStr ''web'', namespace = JStr ''shop'', ip = JStr ''1.1.1.1''\<rparr>,
              \<lparr>name = JStr ''web'', namespace = JStr ''shop'', ip = JStr ''2.2.2.2''\<rparr>]"
    using list_public_missing_structure[THEN conjunct1,
            of "JDict ?kvs8" ?kvs8 ?sp
               "[(''loadBalancer'', JDict [(''ingress'', JList ?ings8)])]"
               "[(''ingress'', JList ?ings8)]" ?ings8 ?md "JStr ''web''" "JStr ''shop''"]
    by (simp add: ingress_ip_def field_def)
  have r9: "scripted (list_cmd ''aks-c1-eastus'') [(exposed_doc, '''', 0)]
              = ((exposed_doc, '''', 0), [])"
    by (simp add: scripted_def)
  have i9: "\<forall>item\<in>set (case exposed_json of JDict b \<Rightarrow> (case map_of b ''items'' of Some (JList xs) \<Rightarrow> xs)).
              \<exists>recs. svc_records item = Inr recs"
    by (simp add: exposed_json_def svc_records_def err_bind_def)
  have w9: "list_public_loadbalancers scripted sample_loads ''aks-c1-eastus'' [(exposed_doc, '''', 0)]
       = (Inr [\<lparr>name = JStr ''Frontend-External'', namespace = JStr ''shop'', ip = JStr ''1.2.3.4''\<rparr>,
               \<lparr>name = JStr ''admin-svc'', namespace = JStr ''ops'', ip = JStr ''5.6.7.8''\<rparr>],
          [Run (list_cmd ''aks-c1-eastus'')], [])"
    using list_public_missing_structure[
            where r=scripted and loads=sample_loads and ctx="''aks-c1-eastus''"
              and w="[(exposed_doc, '''', 0)]" and out=exposed_doc and err="''''" and ?w1.0="[]"
              and body="case exposed_json of JDict b \<Rightarrow> b"
              and items="case exposed_json of JDict b \<Rightarrow> (case map_of b ''items'' of Some (JList xs) \<Rightarrow> xs)",
            THEN conjunct2]
      r9 i9
    by (simp add: sample_loads_simps exposed_json_def svc_records_def err_bind_def)
  from w1 w2 w3 w4 w5 w6 w7 w8 w9 show ?thesis by simp
qed

section \<open>Test 2: public exposure\<close>

lemma any_keyword_str:
  "name s = JStr n \<Longrightarrow> any_keyword kws s = Inr (\<exists>kw\<in>set kws. sublist kw (lower n))"
  by (induction kws) (auto simp: err_bind_def)

lemma critical_public_str:
  "\<forall>s\<in>set p. \<exists>n. name s = JStr n \<Longrightarrow>
     critical_public p =
       Inr (filter (\<lambda>s. \<forall>n. name s = JStr n \<longrightarrow>
                      (\<forall>kw\<in>set allowed_keywords. \<not> sublist kw (lower n))) p)"
proof (induction p)
  case Nil
  then show ?case by simp
next
  case (Cons s p)
  then obtain n where n: "name s = JStr n" by auto
  from Cons have "critical_public p =
       Inr (filter (\<lambda>s. \<forall>n. name s = JStr n \<longrightarrow>
                      (\<forall>kw\<in>set allowed_keywords. \<not> sublist kw (lower n))) p)" by simp
  then show ?case using n by (simp add: any_keyword_str err_bind_def)
qed

lemma critical_public_allowed:
  assumes "\<forall>s\<in>set p. \<exists>n. name s = JStr n \<and>
             (sublist ''frontend'' (lower n) \<or> sublist ''c2-validation'' (lower n))"
  shows "critical_public p = Inr []"
proof -
  have "\<forall>s\<in>set p. \<exists>n. name s = JStr n" using assms by blast
  from critical_public_str[OF this] show ?thesis
    using assms by (auto simp: filter_empty_conv allowed_keywords_def)
qed

lemma exposure_loop_step_clean:
  assumes "list_public_loadbalancers r loads ctx w = (Inr p, e, w1)"
      and "critical_public p = Inr []"
  shows "\<exists>ev. exposure_loop r loads ((ctx, cn) # rest) w
           = (case exposure_loop r loads rest w1 of (x, ev', w') \<Rightarrow> (x, ev @ ev', w'))
           \<and> commands ev = [list_cmd ctx]"
  using assms list_public_commands[OF assms(1)]
  by (auto simp: io_defs split: prod.splits)

lemma exposure_loop_step_violation:
  assumes "list_public_loadbalancers r loads ctx w = (Inr p, e, w1)"
      and "critical_public p = Inr crit" and "crit \<noteq> []"
  shows "exposure_loop r loads ((ctx, cn) # rest) w
           = (Inr False,
              e @ Print (ExposedHeader cn) # map Print (map svc_line p)
                @ Print NonAllowedHeader # map Print (map svc_line crit),
              w1)"
proof -
  from assms have "p \<noteq> []" by auto
  then show ?thesis using assms by (simp add: io_defs)
qed

lemma exposure_all_clean:
  assumes "list_public_loadbalancers r loads (c1_context self) w = (Inr p1, e1, w1)"
      and "list_public_loadbalancers r loads (c2_context self) w1 = (Inr p2, e2, w2)"
      and "critical_public p1 = Inr []" and "critical_public p2 = Inr []"
  shows "fst (test_public_exposure r loads self w) = Inr True"
proof -
  obtain ev1 where s1: "exposure_loop r loads [(c1_context self, ''C1''), (c2_context self, ''C2'')] w
           = (case exposure_loop r loads [(c2_context self, ''C2'')] w1 of (x, ev', w') \<Rightarrow> (x, ev1 @ ev', w'))"
    using exposure_loop_step_clean[OF assms(1) assms(3), of "''C1''" "[(c2_context self, ''C2'')]"]
    by (metis (no_types, lifting))
  obtain ev2 where s2: "exposure_loop r loads [(c2_context self, ''C2'')] w1
           = (case exposure_loop r loads [] w2 of (x, ev', w') \<Rightarrow> (x, ev2 @ ev', w'))"
    using exposure_loop_step_clean[OF assms(2) assms(4), of "''C2''" "[]"]
    by (metis (no_types, lifting))
  show ?thesis using s1 s2 by (simp add: test_public_exposure_def io_defs)
qed

lemma exposed_run:
  "test_public_exposure scripted sample_loads verifier ((exposed_doc, '''', 0) # ws) =
     (Inr False,
      [Print Test2Header, Print Rule, Run (list_cmd ''aks-c1-eastus''),
       Print (ExposedHeader ''C1''),
       Print (SvcLine (JStr ''shop'') (JStr ''Frontend-External'') (JStr ''1.2.3.4'')),
       Print (SvcLine (JStr ''ops'') (JStr ''admin-svc'') (JStr ''5.6.7.8'')),
       Print NonAllowedHeader,
       Print (SvcLine (JStr ''ops'') (JStr ''admin-svc'') (JStr ''5.6.7.8''))],
      ws)"
  by (simp add: test_public_exposure_def io_bind_def io_seq_def io_print_def io_prints_def
        io_return_def io_lift_def sample_listing verifier_simps
        err_bind_def allowed_keywords_def lower_samples sublist_samples svc_line_def)

text \<open>
  Claim C5. Let \<open>p1\<close> and \<open>p2\<close> be the public endpoints that
  \<^verbatim>\<open>list_public_loadbalancers\<close> finds for the two clusters, all with a string as
  name. \<^verbatim>\<open>test_public_exposure\<close> returns \<^verbatim>\<open>False\<close> exactly when one of them
  has a name whose lower-case form contains neither \<^verbatim>\<open>frontend\<close> nor
  \<^verbatim>\<open>c2-validation\<close>; with no endpoint in either cluster it returns \<^verbatim>\<open>True\<close>.
\<close>

theorem exposure_false_iff:
  assumes "list_public_loadbalancers r loads (c1_context self) w = (Inr p1, e1, w1)"
      and "list_public_loadbalancers r loads (c2_context self) w1 = (Inr p2, e2, w2)"
      and "\<forall>s\<in>set (p1 @ p2). \<exists>n. name s = JStr n"
  shows "fst (test_public_exposure r loads self w) =
           Inr (\<not> (\<exists>s\<in>set (p1 @ p2). \<exists>n. name s = JStr n \<and>
                      \<not> sublist ''frontend'' (lower n) \<and> \<not> sublist ''c2-validation'' (lower n)))
         \<and> (p1 = [] \<and> p2 = [] \<longrightarrow> fst (test_public_exposure r loads self w) = Inr True)"
proof -
  let ?bad = "\<lambda>s. \<forall>n. name s = JStr n \<longrightarrow>
                      (\<forall>kw\<in>set allowed_keywords. \<not> sublist kw (lower n))"
  have c1: "critical_public p1 = Inr (filter ?bad p1)"
    using assms(3) by (intro critical_public_str) auto
  have c2: "critical_public p2 = Inr (filter ?bad p2)"
    using assms(3) by (intro critical_public_str) auto
  have bad_iff: "?bad s \<longleftrightarrow> (\<exists>n. name s = JStr n \<and>
                      \<not> sublist ''frontend'' (lower n) \<and> \<not> sublist ''c2-validation'' (lower n))"
    if "s \<in> set (p1 @ p2)" for s
    using assms(3) that by (auto simp: allowed_keywords_def)
  have main: "fst (test_public_exposure r loads self w) =
           Inr (\<not> (\<exists>s\<in>set (p1 @ p2). ?bad s))"
  proof (cases "filter ?bad p1 = []")
    case False
    then have "\<exists>s\<in>set p1. ?bad s" by (auto simp: filter_empty_conv)
    moreover have "fst (test_public_exposure r loads self w) = Inr False"
      using exposure_loop_step_violation[OF assms(1) c1 False]
      by (simp add: test_public_exposure_def io_defs)
    ultimately show ?thesis by auto
  next
    case True
    then have n1: "\<not> (\<exists>s\<in>set p1. ?bad s)" by (auto simp: filter_empty_conv)
    obtain ev1 where s1: "exposure_loop r loads [(c1_context self, ''C1''), (c2_context self, ''C2'')] w
           = (case exposure_loop r loads [(c2_context self, ''C2'')] w1 of (x, ev', w') \<Rightarrow> (x, ev1 @ ev', w'))"
      using exposure_loop_step_clean[OF assms(1), of "''C1''" "[(c2_context self, ''C2'')]"] c1 True
      by (metis (no_types, lifting))
    show ?thesis
    proof (cases "filter ?bad p2 = []")
      case False
      then have "\<exists>s\<in>set p2. ?bad s" by (auto simp: filter_empty_conv)
      moreover have "fst (test_public_exposure r loads self w) = Inr False"
        using exposure_loop_step_violation[OF assms(2) c2 False] s1
        by (simp add: test_public_exposure_def io_defs)
      ultimately show ?thesis by auto
    next
      case T2: True
      then have n2: "\<not> (\<exists>s\<in>set p2. ?bad s)" by (auto simp: filter_empty_conv)
      obtain ev2 where s2: "exposure_loop r loads [(c2_context self, ''C2'')] w1
           = (case exposure_loop r loads [] w2 of (x, ev', w') \<Rightarrow> (x, ev2 @ ev', w'))"
        using exposure_loop_step_clean[OF assms(2), of "''C2''" "[]"] c2 T2
        by (metis (no_types, lifting))
      have "fst (test_public_exposure r loads self w) = Inr True"
        using s1 s2 by (simp add: test_public_exposure_def io_defs)
      then show ?thesis using n1 n2 by auto
    qed
  qed
  have eq: "(\<exists>s\<in>set (p1 @ p2). ?bad s) \<longleftrightarrow> (\<exists>s\<in>set (p1 @ p2). \<exists>n. name s = JStr n \<and>
                      \<not> sublist ''frontend'' (lower n) \<and> \<not> sublist ''c2-validation'' (lower n))"
    using bad_iff by blast
  have part1: "fst (test_public_exposure r loads self w) =
           Inr (\<not> (\<exists>s\<in>set (p1 @ p2). \<exists>n. name s = JStr n \<and>
                      \<not> sublist ''frontend'' (lower n) \<and> \<not> sublist ''c2-validation'' (lower n)))"
    using main unfolding eq .
  have part2: "p1 = [] \<and> p2 = [] \<longrightarrow> fst (test_public_exposure r loads self w) = Inr True"
    using main by simp
  from part1 part2 show ?thesis by (rule conjI)
qed

text \<open>
  Cluster C1 exposes \<^verbatim>\<open>Frontend-External\<close> and \<^verbatim>\<open>admin-svc\<close>, cluster C2
  nothing: \<^verbatim>\<open>admin-svc\<close> is not allowed, so the check fails. With no public
  endpoint in either cluster the check passes.
\<close>

theorem exposure_false_iff_witness:
  "fst (test_public_exposure scripted sample_loads verifier
          [(exposed_doc, '''', 0), (no_services_doc, '''', 0)]) = Inr False
   \<and> fst (test_public_exposure scripted sample_loads verifier
          [(no_services_doc, '''', 0), (no_services_doc, '''', 0)]) = Inr True"
proof -
  let ?p1 = "[\<lparr>name = JStr ''Frontend-External'', namespace = JStr ''shop'', ip = JStr ''1.2.3.4''\<rparr>,
           \<lparr>name = JStr ''admin-svc'', namespace = JStr ''ops'', ip = JStr ''5.6.7.8''\<rparr>]"
  have h3: "\<forall>s\<in>set (?p1 @ []). \<exists>n. name s = JStr n" by simp
  have A: "fst (test_public_exposure scripted sample_loads verifier
          [(exposed_doc, '''', 0), (no_services_doc, '''', 0)]) = Inr False"
    using exposure_false_iff[of scripted sample_loads verifier _ ?p1 _ _ "[]",
            OF sample_listing empty_listing h3]
    by (simp add: lower_samples sublist_samples)
  have h4: "\<forall>s\<in>set ([] @ [] :: endpoint list). \<exists>n. name s = JStr n" by simp
  have B: "fst (test_public_exposure scripted sample_loads verifier
          [(no_services_doc, '''', 0), (no_services_doc, '''', 0)]) = Inr True"
    using exposure_false_iff[of scripted sample_loads verifier _ "[]" _ _ "[]",
            OF empty_listing empty_listing h4]
    by simp
  from A B show ?thesis by (rule conjI)
qed

text \<open>
  Claim C6. When the service listing of one cluster fails (non-zero exit code, or output
  that does not parse), \<^verbatim>\<open>list_public_loadbalancers\<close> returns the empty list for
  it; if every endpoint of the other cluster has an allowed name,
  \<^verbatim>\<open>test_public_exposure\<close> returns \<^verbatim>\<open>True\<close>. Stated for a failure in the first
  cluster, and for a failure in the second.
\<close>

theorem exposure_retrieval_failure:
  "(r (list_cmd (c1_context self)) w = ((out, err, rc), w1) \<and> (rc \<noteq> 0 \<or> loads out = None) \<and>
    list_public_loadbalancers r loads (c2_context self) w1 = (Inr p2, e2, w2) \<and>
    (\<forall>s\<in>set p2. \<exists>n. name s = JStr n \<and>
        (sublist ''frontend'' (lower n) \<or> sublist ''c2-validation'' (lower n)))
    \<longrightarrow> fst (list_public_loadbalancers r loads (c1_context self) w) = Inr [] \<and>
        fst (test_public_exposure r loads self w) = Inr True)
   \<and>
   (list_public_loadbalancers r loads (c1_context self) w = (Inr p1, e1, v1) \<and>
    (\<forall>s\<in>set p1. \<exists>n. name s = JStr n \<and>
        (sublist ''frontend'' (lower n) \<or> sublist ''c2-validation'' (lower n))) \<and>
    r (list_cmd (c2_context self)) v1 = ((out', err', rc'), v2) \<and> (rc' \<noteq> 0 \<or> loads out' = None)
    \<longrightarrow> fst (list_public_loadbalancers r loads (c2_context self) v1) = Inr [] \<and>
        fst (test_public_exposure r loads self w) = Inr True)"
proof (intro conjI impI; elim conjE)
  assume a: "r (list_cmd (c1_context self)) w = ((out, err, rc), w1)" "rc \<noteq> 0 \<or> loads out = None"
    and b: "list_public_loadbalancers r loads (c2_context self) w1 = (Inr p2, e2, w2)"
    and c: "\<forall>s\<in>set p2. \<exists>n. name s = JStr n \<and>
        (sublist ''frontend'' (lower n) \<or> sublist ''c2-validation'' (lower n))"
  from list_public_failure[where r=r and loads=loads, OF a] obtain ev where
    l1: "list_public_loadbalancers r loads (c1_context self) w = (Inr [], ev, w1)" by blast
  then show "fst (list_public_loadbalancers r loads (c1_context self) w) = Inr []" by simp
  show "fst (test_public_exposure r loads self w) = Inr True"
    using exposure_all_clean[OF l1 b _ critical_public_allowed[OF c]] by simp
next
  assume a: "list_public_loadbalancers r loads (c1_context self) w = (Inr p1, e1, v1)"
    and c: "\<forall>s\<in>set p1. \<exists>n. name s = JStr n \<and>
        (sublist ''frontend'' (lower n) \<or> sublist ''c2-validation'' (lower n))"
    and b: "r (list_cmd (c2_context self)) v1 = ((out', err', rc'), v2)" "rc' \<noteq> 0 \<or> loads out' = None"
  from list_public_failure[where r=r and loads=loads, OF b] obtain ev where
    l2: "list_public_loadbalancers r loads (c2_context self) v1 = (Inr [], ev, v2)" by blast
  then show "fst (list_public_loadbalancers r loads (c2_context self) v1) = Inr []" by simp
  show "fst (test_public_exposure r loads self w) = Inr True"
    using exposure_all_clean[OF a l2 critical_public_allowed[OF c]] by simp
qed

text \<open>
  Access denied on cluster C1, and output that is not JSON on cluster C2, each with
  \<^verbatim>\<open>Frontend-External\<close> exposed on the other cluster.
\<close>

theorem exposure_retrieval_failure_witness:
  "fst (test_public_exposure scripted sample_loads verifier
          [('''', ''denied'', 1), (frontend_doc, '''', 0)]) = Inr True
   \<and> fst (test_public_exposure scripted sample_loads verifier
          [(frontend_doc, '''', 0), (''not json'', '''', 0)]) = Inr True"
proof -
  let ?p = "[\<lparr>name = JStr ''Frontend-External'', namespace = JStr ''shop'', ip = JStr ''1.2.3.4''\<rparr>]"
  have ok: "\<forall>s\<in>set ?p. \<exists>n. name s = JStr n \<and>
        (sublist ''frontend'' (lower n) \<or> sublist ''c2-validation'' (lower n))"
    by (simp add: lower_samples sublist_samples)
  have a1: "scripted (list_cmd (c1_context verifier)) [('''', ''denied'', 1), (frontend_doc, '''', 0)]
              = (('''', ''denied'', 1), [(frontend_doc, '''', 0)])"
    by (simp add: scripted_def)
  have a2: "(1::int) \<noteq> 0 \<or> sample_loads '''' = None" by simp
  have b2: "scripted (list_cmd (c2_context verifier)) [(''not json'', '''', 0)]
              = ((''not json'', '''', 0), [])"
    by (simp add: scripted_def)
  have b3: "(0::int) \<noteq> 0 \<or> sample_loads ''not json'' = None"
    by (simp add: sample_loads_simps)
  have A: "fst (test_public_exposure scripted sample_loads verifier
          [('''', ''denied'', 1), (frontend_doc, '''', 0)]) = Inr True"
    using exposure_retrieval_failure[where r=scripted and loads=sample_loads and self=verifier
        and w="[('''', ''denied'', 1), (frontend_doc, '''', 0)]" and out="''''" and err="''denied''"
        and rc=1 and ?w1.0="[(frontend_doc, '''', 0)]" and ?p2.0="?p"
        and ?e2.0="[Run (list_cmd (c2_context verifier))]" and ?w2.0="[]", THEN conjunct1]
      a1 a2 frontend_listing[of "c2_context verifier" "[]"] ok
    by blast
  have B: "fst (test_public_exposure scripted sample_loads verifier
          [(frontend_doc, '''', 0), (''not json'', '''', 0)]) = Inr True"
    using exposure_retrieval_failure[where r=scripted and loads=sample_loads and self=verifier
        and w="[(frontend_doc, '''', 0), (''not json'', '''', 0)]" and ?p1.0="?p"
        and ?e1.0="[Run (list_cmd (c1_context verifier))]" and ?v1.0="[(''not json'', '''', 0)]"
        and out'="''not json''" and err'="''''" and rc'=0 and ?v2.0="[]", THEN conjunct2]
      frontend_listing[of "c1_context verifier" "[(''not json'', '''', 0)]"] ok b2 b3
    by blast
  from A B show ?thesis by (rule conjI)
qed

text \<open>
  Claim C7, as stated, fails. Cluster C1 exposes \<^verbatim>\<open>admin-svc\<close>: the check
  returns \<^verbatim>\<open>False\<close>, the listing command of cluster C2 is not among the commands
  executed, and the response recorded for it is still unread.
\<close>

theorem second_cluster_not_listed:
  "fst (test_public_exposure scripted sample_loads verifier
          [(exposed_doc, '''', 0), (no_services_doc, '''', 0)]) = Inr False \<and>
   list_cmd (c2_context verifier) \<notin> set (commands (fst (snd
      (test_public_exposure scripted sample_loads verifier
          [(exposed_doc, '''', 0), (no_services_doc, '''', 0)])))) \<and>
   snd (snd (test_public_exposure scripted sample_loads verifier
          [(exposed_doc, '''', 0), (no_services_doc, '''', 0)])) = [(no_services_doc, '''', 0)]"
  by (simp add: exposed_run list_cmd_def verifier_simps)

text \<open>
  Claim C7, amended. When the first cluster yields an endpoint whose name contains none of
  the allowed keywords (all names being strings), \<^verbatim>\<open>test_public_exposure\<close> returns
  \<^verbatim>\<open>False\<close> at once: the listing of the first cluster is the only command executed,
  and the world is the one that listing left.
\<close>

theorem exposure_stops_at_first_violation:
  assumes "list_public_loadbalancers r loads (c1_context self) w = (Inr p1, e1, w1)"
      and "\<forall>s\<in>set p1. \<exists>n. name s = JStr n"
      and "\<exists>s\<in>set p1. \<exists>n. name s = JStr n \<and>
             \<not> sublist ''frontend'' (lower n) \<and> \<not> sublist ''c2-validation'' (lower n)"
  shows "\<exists>ev. test_public_exposure r loads self w = (Inr False, ev, w1) \<and>
              commands ev = [list_cmd (c1_context self)]"
proof -
  let ?bad = "\<lambda>s. \<forall>n. name s = JStr n \<longrightarrow>
                      (\<forall>kw\<in>set allowed_keywords. \<not> sublist kw (lower n))"
  have c1: "critical_public p1 = Inr (filter ?bad p1)"
    by (rule critical_public_str[OF assms(2)])
  from assms(3) obtain s n where s: "s \<in> set p1" "name s = JStr n"
      "\<not> sublist ''frontend'' (lower n)" "\<not> sublist ''c2-validation'' (lower n)"
    by blast
  then have "?bad s" by (simp add: allowed_keywords_def)
  with s(1) have "\<exists>x\<in>set p1. ?bad x" by blast
  then have ne: "filter ?bad p1 \<noteq> []"
    by (simp add: filter_empty_conv)
  have cm: "commands e1 = [list_cmd (c1_context self)]"
    using list_public_commands[OF assms(1)] by simp
  show ?thesis
    using exposure_loop_step_violation[OF assms(1) c1 ne, of "''C1''" "[(c2_context self, ''C2'')]"] cm
    by (simp add: test_public_exposure_def io_defs)
qed

text \<open>
  The run of the counterexample: one command, and the second response unread.
\<close>

theorem exposure_stops_at_first_violation_witness:
  "\<exists>ev. test_public_exposure scripted sample_loads verifier
           [(exposed_doc, '''', 0), (no_services_doc, '''', 0)]
         = (Inr False, ev, [(no_services_doc, '''', 0)])
       \<and> commands ev = [list_cmd (c1_context verifier)]"
proof -
  let ?p1 = "[\<lparr>name = JStr ''Frontend-External'', namespace = JStr ''shop'', ip = JStr ''1.2.3.4''\<rparr>,
           \<lparr>name = JStr ''admin-svc'', namespace = JStr ''ops'', ip = JStr ''5.6.7.8''\<rparr>]"
  have h2: "\<forall>s\<in>set ?p1. \<exists>n. name s = JStr n" by simp
  have h3: "\<exists>s\<in>set ?p1. \<exists>n. name s = JStr n \<and>
             \<not> sublist ''frontend'' (lower n) \<and> \<not> sublist ''c2-validation'' (lower n)"
    by (simp add: lower_samples sublist_samples)
  from exposure_stops_at_first_violation[where r=scripted and loads=sample_loads and self=verifier,
         OF sample_listing h2 h3]
  show ?thesis .
qed

section \<open>Test 3: network isolation\<close>

lemma length_filter_disjoint:
  "(\<And>x. \<not> (P x \<and> Q x)) \<Longrightarrow>
     length (filter P xs) + length (filter Q xs) = length (filter (\<lambda>x. P x \<or> Q x) xs)"
  by (induction xs) auto

lemma select_access_objects:
  assumes "\<forall>x\<in>set rs. \<exists>f. x = JDict f"
  shows "select_access a rs = Inr (filter (\<lambda>x. field x ''access'' = Some (JStr a)) rs)"
  using assms
proof (induction rs)
  case Nil
  then show ?case by simp
next
  case (Cons x rs)
  then obtain f where f: "x = JDict f" by auto
  from Cons have ih: "select_access a rs = Inr (filter (\<lambda>x. field x ''access'' = Some (JStr a)) rs)"
    by simp
  show ?case using f ih by (auto simp: err_bind_def field_def split: option.splits)
qed

lemma nsg_loop_world:
  "nsg_loop cn gs w = (x, ev, w') \<Longrightarrow> w' = w \<and> commands ev = []"
proof (induction gs arbitrary: x ev)
  case Nil
  then show ?case by (simp add: io_return_def)
next
  case (Cons g gs)
  then show ?case
    by (auto simp: io_bind_def io_seq_def io_lift_def io_print_def split: sum.splits prod.splits)
qed

lemma nsg_loop_summary:
  assumes "\<forall>g\<in>set groups. \<exists>kvs. g = JDict kvs"
      and "\<forall>g\<in>set groups. \<forall>v. field g ''securityRules'' = Some v \<longrightarrow>
             (\<exists>rs. v = JList rs \<and> (\<forall>x\<in>set rs. \<exists>f. x = JDict f))"
  shows "nsg_loop cn groups w =
           (Inr (), map (\<lambda>g. Print (NsgSummary cn (group_name g) (access_count ''Allow'' g)
                                      (access_count ''Deny'' g))) groups, w)"
  using assms
proof (induction groups)
  case Nil
  then show ?case by (simp add: io_return_def)
next
  case (Cons g groups)
  then obtain kvs where g: "g = JDict kvs" by auto
  have ih: "nsg_loop cn groups w =
           (Inr (), map (\<lambda>g. Print (NsgSummary cn (group_name g) (access_count ''Allow'' g)
                                      (access_count ''Deny'' g))) groups, w)"
    using Cons by simp
  have nm: "py_get g ''name'' (JStr ''<unknown>'') = Inr (group_name g)"
    using g by (simp add: group_name_def field_def)
  have "py_get g ''securityRules'' (JList []) = Inr (JList (group_rules g))
          \<and> (\<forall>x\<in>set (group_rules g). \<exists>f. x = JDict f)"
  proof (cases "field g ''securityRules''")
    case None
    then show ?thesis using g by (simp add: group_rules_def field_def)
  next
    case (Some v)
    with Cons.prems(2) obtain rs where "v = JList rs" "\<forall>x\<in>set rs. \<exists>f. x = JDict f"
      by auto
    with Some show ?thesis using g by (simp add: group_rules_def field_def)
  qed
  then have rl: "py_get g ''securityRules'' (JList []) = Inr (JList (group_rules g))"
    and obj: "\<forall>x\<in>set (group_rules g). \<exists>f. x = JDict f"
    by blast+
  show ?case
    using nm rl ih select_access_objects[OF obj]
    by (simp add: io_bind_def io_seq_def io_lift_def io_print_def err_bind_def access_count_def)
qed

lemma isolation_loop_failed:
  assumes "r (nsg_cmd rg) w = ((out, err, rc), w1)" and "rc \<noteq> 0 \<or> loads out = None"
  shows "\<exists>ev1. commands ev1 = [nsg_cmd rg] \<and>
           isolation_loop r loads ok ((ctx, cn, rg) # rest) w =
             (case isolation_loop r loads False rest w1 of (x, ev2, w2) \<Rightarrow> (x, ev1 @ ev2, w2))"
proof (cases "rc \<noteq> 0")
  case True
  show ?thesis
    by (rule exI[of _ "Run (nsg_cmd rg) # Print (CouldNotListNsgs cn rg)
                        # (if err \<noteq> [] then [Print (ErrorDetail (strip err))] else [])"])
       (simp add: assms(1) True io_defs split: prod.splits)
next
  case False
  with assms(2) have "loads out = None" by simp
  with False show ?thesis
    by (intro exI[of _ "[Run (nsg_cmd rg), Print (NsgParseFailed cn rg)]"])
       (simp add: assms(1) io_defs split: prod.splits)
qed

lemma isolation_loop_empty:
  assumes "r (nsg_cmd rg) w = ((out, err, 0), w1)" and "loads out = Some nsgs" and "\<not> truthy nsgs"
  shows "isolation_loop r loads ok ((ctx, cn, rg) # rest) w =
             (case isolation_loop r loads ok rest w1 of
                (x, ev2, w2) \<Rightarrow> (x, [Run (nsg_cmd rg), Print (NoNsgs cn rg)] @ ev2, w2))"
  using assms by (simp add: io_defs split: prod.splits)

lemma isolation_loop_groups:
  assumes "r (nsg_cmd rg) w = ((out, err, 0), w1)" and "loads out = Some nsgs" and "truthy nsgs"
      and "isolation_loop r loads ok ((ctx, cn, rg) # rest) w = (Inr b, ev, w')"
  shows "\<exists>ev1 ev2. ev = ev1 @ ev2 \<and> commands ev1 = [nsg_cmd rg] \<and>
           isolation_loop r loads ok rest w1 = (Inr b, ev2, w')"
proof -
  have step: "isolation_loop r loads ok ((ctx, cn, rg) # rest) w =
          (case io_bind (io_lift (py_iter nsgs)) (\<lambda>groups.
                  io_seq (nsg_loop cn groups) (isolation_loop r loads ok rest)) w1 of
             (x, ev2, w2) \<Rightarrow> (x, Run (nsg_cmd rg) # ev2, w2))"
    using assms(1-3) by (simp add: io_bind_def run_cmd_def split: prod.splits)
  with assms(4) obtain ev' where
    a: "io_bind (io_lift (py_iter nsgs)) (\<lambda>groups.
          io_seq (nsg_loop cn groups) (isolation_loop r loads ok rest)) w1 = (Inr b, ev', w')"
    and ev: "ev = Run (nsg_cmd rg) # ev'"
    by (auto split: prod.splits)
  from a obtain groups where it: "py_iter nsgs = Inr groups"
    and b: "io_seq (nsg_loop cn groups) (isolation_loop r loads ok rest) w1 = (Inr b, ev', w')"
    by (cases "py_iter nsgs") (auto simp: io_bind_def io_lift_def split: prod.splits)
  from b obtain e1 wm e2 where nl: "nsg_loop cn groups w1 = (Inr (), e1, wm)"
    and rest: "isolation_loop r loads ok rest wm = (Inr b, e2, w')" and ev': "ev' = e1 @ e2"
    unfolding io_seq_def io_bind_result by auto
  from nsg_loop_world[OF nl] have "wm = w1" "commands e1 = []" by simp_all
  then show ?thesis using rest ev ev'
    by (intro exI[of _ "Run (nsg_cmd rg) # e1"] exI[of _ e2]) simp
qed

lemma isolation_loop_step:
  assumes "r (nsg_cmd rg) w = ((out, err, rc), w1)"
      and "isolation_loop r loads ok ((ctx, cn, rg) # rest) w = (Inr b, ev, w')"
  shows "\<exists>ev1 ev2. ev = ev1 @ ev2 \<and> commands ev1 = [nsg_cmd rg] \<and>
           isolation_loop r loads (ok \<and> rc = 0 \<and> loads out \<noteq> None) rest w1 = (Inr b, ev2, w') \<and>
           (rc = 0 \<and> loads out = Some (JList []) \<longrightarrow> Print (NoNsgs cn rg) \<in> set ev1)"
proof (cases "rc \<noteq> 0 \<or> loads out = None")
  case True
  from isolation_loop_failed[where r=r and loads=loads, OF assms(1) True, of ok ctx cn rest]
  obtain ev1 where ev1: "commands ev1 = [nsg_cmd rg]"
    "isolation_loop r loads ok ((ctx, cn, rg) # rest) w =
       (case isolation_loop r loads False rest w1 of (x, ev2, w2) \<Rightarrow> (x, ev1 @ ev2, w2))"
    by blast
  from ev1(2) assms(2) obtain ev2 where
    "isolation_loop r loads False rest w1 = (Inr b, ev2, w')" "ev = ev1 @ ev2"
    by (auto split: prod.splits)
  then show ?thesis using ev1(1) True by auto
next
  case False
  then obtain nsgs where rc0: "rc = 0" and ld: "loads out = Some nsgs" by auto
  show ?thesis
  proof (cases "truthy nsgs")
    case True
    then have "nsgs \<noteq> JList []" by auto
    with isolation_loop_groups[where r=r and loads=loads, OF assms(1)[unfolded rc0] ld True assms(2)]
    show ?thesis using rc0 ld by auto
  next
    case nt: False
    from isolation_loop_empty[where r=r and loads=loads, OF assms(1)[unfolded rc0] ld nt, of ok ctx cn rest]
      assms(2)
    obtain ev2 where "isolation_loop r loads ok rest w1 = (Inr b, ev2, w')"
      "ev = [Run (nsg_cmd rg), Print (NoNsgs cn rg)] @ ev2"
      by (auto split: prod.splits)
    then show ?thesis using rc0 ld
      by (intro exI[of _ "[Run (nsg_cmd rg), Print (NoNsgs cn rg)]"] exI[of _ ev2]) simp
  qed
qed

lemma isolation_unfold:
  "test_network_isolation r loads self w =
     (case isolation_loop r loads True (cluster_nsg_config self) w of
        (Inl e, ev0, w') \<Rightarrow> (Inl e, Print Test3Header # Print Rule # ev0, w')
      | (Inr b, ev0, w') \<Rightarrow>
          (Inr b, Print Test3Header # Print Rule # ev0
                    @ [Print (if b then Test3Passed else Test3Warnings)], w'))"
  by (simp add: test_network_isolation_def io_bind_def io_seq_def io_print_def io_return_def
        split: prod.splits sum.splits)

lemma denied_isolation_run:
  "test_network_isolation scripted sample_loads verifier
     (('''', ''denied'', 1) # ('''', ''denied'', 1) # ws) =
     (Inr False,
      [Print Test3Header, Print Rule,
       Run (nsg_cmd ''rg-c1-eastus''), Print (CouldNotListNsgs ''C1'' ''rg-c1-eastus''),
       Print (ErrorDetail ''denied''),
       Run (nsg_cmd ''rg-c2-westus''), Print (CouldNotListNsgs ''C2'' ''rg-c2-westus''),
       Print (ErrorDetail ''denied''),
       Print Test3Warnings], ws)"
  by (simp add: test_network_isolation_def cluster_nsg_config_def io_defs scripted_def
        strip_def is_space_def)

lemma c2_denied_isolation_run:
  "test_network_isolation scripted sample_loads verifier
     [(nsg_doc, '''', 0), ('''', ''denied'', 1)] =
     (Inr False,
      [Print Test3Header, Print Rule,
       Run (nsg_cmd ''rg-c1-eastus''), Print (NsgSummary ''C1'' (JStr ''nsg1'') 2 1),
       Run (nsg_cmd ''rg-c2-westus''), Print (CouldNotListNsgs ''C2'' ''rg-c2-westus''),
       Print (ErrorDetail ''denied''),
       Print Test3Warnings], [])"
  by (simp add: test_network_isolation_def cluster_nsg_config_def io_defs scripted_def
        strip_def is_space_def sample_loads_simps nsg_json_def err_bind_def)

lemma no_groups_isolation_run:
  "test_network_isolation scripted sample_loads verifier
     [(''[]'', '''', 0), (''[]'', '''', 0)] =
     (Inr True,
      [Print Test3Header, Print Rule,
       Run (nsg_cmd ''rg-c1-eastus''), Print (NoNsgs ''C1'' ''rg-c1-eastus''),
       Run (nsg_cmd ''rg-c2-westus''), Print (NoNsgs ''C2'' ''rg-c2-westus''),
       Print Test3Passed], [])"
  by (simp add: test_network_isolation_def cluster_nsg_config_def io_defs scripted_def
        sample_loads_simps)

lemma is_object_iff: "is_object x \<longleftrightarrow> (\<exists>kvs. x = JDict kvs)"
  by (cases x) simp_all

lemma well_formed_groups:
  assumes "list_all well_formed_group groups"
  shows "\<forall>g\<in>set groups. \<exists>kvs. g = JDict kvs"
    and "\<forall>g\<in>set groups. \<forall>v. field g ''securityRules'' = Some v \<longrightarrow>
             (\<exists>rs. v = JList rs \<and> (\<forall>x\<in>set rs. \<exists>f. x = JDict f))"
proof -
  show "\<forall>g\<in>set groups. \<exists>kvs. g = JDict kvs"
    using assms by (auto simp: list_all_iff well_formed_group_def is_object_iff)
  show "\<forall>g\<in>set groups. \<forall>v. field g ''securityRules'' = Some v \<longrightarrow>
             (\<exists>rs. v = JList rs \<and> (\<forall>x\<in>set rs. \<exists>f. x = JDict f))"
  proof (intro ballI allI impI)
    fix g v assume g: "g \<in> set groups" and v: "field g ''securityRules'' = Some v"
    from assms g have "well_formed_group g" by (simp add: list_all_iff)
    with v show "\<exists>rs. v = JList rs \<and> (\<forall>x\<in>set rs. \<exists>f. x = JDict f)"
      by (cases v) (auto simp: well_formed_group_def list_all_iff is_object_iff)
  qed
qed

lemma isolation_loop_report:
  assumes "r (nsg_cmd rg) w = ((out, err, rc), w1)"
      and "rc = 0 \<longrightarrow> (\<forall>nsgs. loads out = Some nsgs \<longrightarrow> rule_group_listing nsgs)"
  shows "isolation_loop r loads ok ((ctx, cn, rg) # rest) w =
           (case isolation_loop r loads (ok \<and> rc = 0 \<and> loads out \<noteq> None) rest w1 of
              (x, ev2, w2) \<Rightarrow>
                (x, Run (nsg_cmd rg) # expected_cluster_report loads cn rg (out, err, rc) @ ev2, w2))"
proof (cases "rc \<noteq> 0")
  case True
  then show ?thesis
    by (simp add: assms(1) expected_cluster_report_def io_defs split: prod.splits)
next
  case rc0: False
  show ?thesis
  proof (cases "loads out")
    case None
    with rc0 show ?thesis
      by (simp add: assms(1) expected_cluster_report_def io_defs split: prod.splits)
  next
    case (Some nsgs)
    with assms(2) rc0 have "rule_group_listing nsgs" by simp
    then obtain groups where nsgs: "nsgs = JList groups" and wf: "list_all well_formed_group groups"
      by (cases nsgs) (simp_all add: rule_group_listing_def)
    show ?thesis
    proof (cases "groups = []")
      case True
      with rc0 Some nsgs show ?thesis
        by (simp add: assms(1) expected_cluster_report_def io_defs split: prod.splits)
    next
      case False
      have nl: "nsg_loop cn groups w1 = (Inr (), map (group_summary cn) groups, w1)"
        using nsg_loop_summary[OF well_formed_groups[OF wf], of cn w1]
        by (simp add: group_summary_def)
      from rc0 Some nsgs False nl show ?thesis
        by (simp add: assms(1) expected_cluster_report_def io_bind_def io_seq_def io_lift_def
              run_cmd_def split: prod.splits)
    qed
  qed
qed

lemma access_count_card:
  "access_count a g =
     card {i. i < length (group_rules g) \<and> field (group_rules g ! i) ''access'' = Some (JStr a)}"
  by (simp add: access_count_def length_filter_conv_card)

lemma access_count_bound:
  "access_count ''Allow'' g + access_count ''Deny'' g \<le> length (group_rules g)"
proof -
  have "access_count ''Allow'' g + access_count ''Deny'' g
          = length (filter (\<lambda>x. field x ''access'' = Some (JStr ''Allow'')
                               \<or> field x ''access'' = Some (JStr ''Deny'')) (group_rules g))"
    unfolding access_count_def
    by (rule length_filter_disjoint) simp
  also have "\<dots> \<le> length (group_rules g)" by (rule length_filter_le)
  finally show ?thesis .
qed

text \<open>
  Claim C8. Let each of the two listings either fail, not parse, or parse to a list of
  JSON objects, each with \<^verbatim>\<open>securityRules\<close> missing or a list of JSON objects. Then \<^verbatim>\<open>test_network_isolation\<close> returns, and what it
  prints for each cluster after running its listing command is the report of the
  specification: for a parsed, non-empty listing one summary for each rule group, in
  order, with the number of rules whose \<^verbatim>\<open>access\<close> is exactly \<^verbatim>\<open>Allow\<close> and the
  number of those whose \<^verbatim>\<open>access\<close> is exactly \<^verbatim>\<open>Deny\<close>. These numbers count two
  disjoint sets of positions in the rule list of the group, and their sum is at most the
  number of its rules.
\<close>

theorem isolation_reports_counts:
  assumes "r (nsg_cmd ''rg-c1-eastus'') w = ((o1, e1, rc1), w1)"
      and "r (nsg_cmd ''rg-c2-westus'') w1 = ((o2, e2, rc2), w2)"
      and "rc1 = 0 \<longrightarrow> (\<forall>nsgs. loads o1 = Some nsgs \<longrightarrow> rule_group_listing nsgs)"
      and "rc2 = 0 \<longrightarrow> (\<forall>nsgs. loads o2 = Some nsgs \<longrightarrow> rule_group_listing nsgs)"
  shows "test_network_isolation r loads self w =
           (Inr ((rc1 = 0 \<and> loads o1 \<noteq> None) \<and> (rc2 = 0 \<and> loads o2 \<noteq> None)),
            [Print Test3Header, Print Rule, Run (nsg_cmd ''rg-c1-eastus'')]
              @ expected_cluster_report loads ''C1'' ''rg-c1-eastus'' (o1, e1, rc1)
              @ [Run (nsg_cmd ''rg-c2-westus'')]
              @ expected_cluster_report loads ''C2'' ''rg-c2-westus'' (o2, e2, rc2)
              @ [Print (if (rc1 = 0 \<and> loads o1 \<noteq> None) \<and> (rc2 = 0 \<and> loads o2 \<noteq> None)
                        then Test3Passed else Test3Warnings)],
            w2)
         \<and> (\<forall>g a. access_count a g =
               card {i. i < length (group_rules g) \<and>
                        field (group_rules g ! i) ''access'' = Some (JStr a)})
         \<and> (\<forall>g. {i. i < length (group_rules g) \<and>
                     field (group_rules g ! i) ''access'' = Some (JStr ''Allow'')}
               \<inter> {i. i < length (group_rules g) \<and>
                     field (group_rules g ! i) ''access'' = Some (JStr ''Deny'')} = {})
         \<and> (\<forall>g. access_count ''Allow'' g + access_count ''Deny'' g \<le> length (group_rules g))"
proof (intro conjI allI)
  have s1: "isolation_loop r loads True (cluster_nsg_config self) w =
      (case isolation_loop r loads (True \<and> rc1 = 0 \<and> loads o1 \<noteq> None)
              [(c2_context self, ''C2'', ''rg-c2-westus'')] w1 of
         (x, ev2, w2) \<Rightarrow>
           (x, Run (nsg_cmd ''rg-c1-eastus'')
                 # expected_cluster_report loads ''C1'' ''rg-c1-eastus'' (o1, e1, rc1) @ ev2, w2))"
    unfolding cluster_nsg_config_def
    by (rule isolation_loop_report[where r=r and loads=loads, OF assms(1) assms(3)])
  have s2: "isolation_loop r loads (True \<and> rc1 = 0 \<and> loads o1 \<noteq> None)
              [(c2_context self, ''C2'', ''rg-c2-westus'')] w1 =
      (case isolation_loop r loads ((True \<and> rc1 = 0 \<and> loads o1 \<noteq> None) \<and> rc2 = 0 \<and> loads o2 \<noteq> None)
              [] w2 of
         (x, ev2, w3) \<Rightarrow>
           (x, Run (nsg_cmd ''rg-c2-westus'')
                 # expected_cluster_report loads ''C2'' ''rg-c2-westus'' (o2, e2, rc2) @ ev2, w3))"
    by (rule isolation_loop_report[where r=r and loads=loads, OF assms(2) assms(4)])
  show "test_network_isolation r loads self w =
           (Inr ((rc1 = 0 \<and> loads o1 \<noteq> None) \<and> (rc2 = 0 \<and> loads o2 \<noteq> None)),
            [Print Test3Header, Print Rule, Run (nsg_cmd ''rg-c1-eastus'')]
              @ expected_cluster_report loads ''C1'' ''rg-c1-eastus'' (o1, e1, rc1)
              @ [Run (nsg_cmd ''rg-c2-westus'')]
              @ expected_cluster_report loads ''C2'' ''rg-c2-westus'' (o2, e2, rc2)
              @ [Print (if (rc1 = 0 \<and> loads o1 \<noteq> None) \<and> (rc2 = 0 \<and> loads o2 \<noteq> None)
                        then Test3Passed else Test3Warnings)],
            w2)"
    unfolding isolation_unfold s1 s2
    by (simp add: io_return_def)
next
  fix g a
  show "access_count a g =
          card {i. i < length (group_rules g) \<and>
                   field (group_rules g ! i) ''access'' = Some (JStr a)}"
    by (rule access_count_card)
next
  fix g
  show "{i. i < length (group_rules g) \<and>
            field (group_rules g ! i) ''access'' = Some (JStr ''Allow'')}
        \<inter> {i. i < length (group_rules g) \<and>
            field (group_rules g ! i) ''access'' = Some (JStr ''Deny'')} = {}"
    by auto
next
  fix g
  show "access_count ''Allow'' g + access_count ''Deny'' g \<le> length (group_rules g)"
    by (rule access_count_bound)
qed

text \<open>
  Both resource groups list one group \<^verbatim>\<open>nsg1\<close> with the rules
  \<^verbatim>\<open>Allow\<close>, \<^verbatim>\<open>Deny\<close>, \<^verbatim>\<open>Allow\<close>: the check prints 2 and 1 for each
  cluster and passes.
\<close>

theorem isolation_reports_counts_witness:
  "test_network_isolation scripted sample_loads verifier
     [(nsg_doc, '''', 0), (nsg_doc, '''', 0)] =
     (Inr True,
      [Print Test3Header, Print Rule,
       Run (nsg_cmd ''rg-c1-eastus''), Print (NsgSummary ''C1'' (JStr ''nsg1'') 2 1),
       Run (nsg_cmd ''rg-c2-westus''), Print (NsgSummary ''C2'' (JStr ''nsg1'') 2 1),
       Print Test3Passed], [])"
proof -
  have a1: "scripted (nsg_cmd ''rg-c1-eastus'') [(nsg_doc, '''', 0), (nsg_doc, '''', 0)]
              = ((nsg_doc, '''', 0), [(nsg_doc, '''', 0)])"
    by (simp add: scripted_def)
  have a2: "scripted (nsg_cmd ''rg-c2-westus'') [(nsg_doc, '''', 0)] = ((nsg_doc, '''', 0), [])"
    by (simp add: scripted_def)
  have a3: "(0::int) = 0 \<longrightarrow> (\<forall>nsgs. sample_loads nsg_doc = Some nsgs \<longrightarrow> rule_group_listing nsgs)"
    by (simp add: sample_loads_simps nsg_json_def rule_group_listing_def well_formed_group_def
          field_def)
  from isolation_reports_counts[where r=scripted and loads=sample_loads and self=verifier,
         OF a1 a2 a3 a3, THEN conjunct1]
  show ?thesis
    by (simp add: sample_loads_simps nsg_json_def expected_cluster_report_def group_summary_def
          group_name_def group_rules_def access_count_def field_def)
qed

text \<open>
  Claim C9. When \<^verbatim>\<open>test_network_isolation\<close> returns, its result is
  \<^verbatim>\<open>False\<close> exactly when the listing of one of the two resource groups exits with
  a non-zero code or does not parse; it has executed the two listing commands, in order. An
  empty list of rule groups prints the warning of its cluster and, by the equivalence,
  does not make the result false; the rules themselves do not occur in the condition.
\<close>

theorem isolation_false_iff:
  assumes "r (nsg_cmd ''rg-c1-eastus'') w = ((o1, e1, rc1), w1)"
      and "r (nsg_cmd ''rg-c2-westus'') w1 = ((o2, e2, rc2), w2)"
      and "test_network_isolation r loads self w = (Inr ok, ev, w')"
  shows "(ok = False \<longleftrightarrow> (rc1 \<noteq> 0 \<or> loads o1 = None) \<or> (rc2 \<noteq> 0 \<or> loads o2 = None))
         \<and> commands ev = [nsg_cmd ''rg-c1-eastus'', nsg_cmd ''rg-c2-westus''] \<and> w' = w2
         \<and> (rc1 = 0 \<and> loads o1 = Some (JList []) \<longrightarrow> Print (NoNsgs ''C1'' ''rg-c1-eastus'') \<in> set ev)
         \<and> (rc2 = 0 \<and> loads o2 = Some (JList []) \<longrightarrow> Print (NoNsgs ''C2'' ''rg-c2-westus'') \<in> set ev)"
proof -
  obtain x ev0 wf where
    lp: "isolation_loop r loads True (cluster_nsg_config self) w = (x, ev0, wf)"
    by (cases "isolation_loop r loads True (cluster_nsg_config self) w") auto
  from assms(3) lp obtain b where xb: "x = Inr b"
    by (cases x) (auto simp: isolation_unfold)
  from assms(3) lp xb have
    ev: "ev = Print Test3Header # Print Rule # ev0 @ [Print (if b then Test3Passed else Test3Warnings)]" and
    ok: "ok = b" and wf: "wf = w'"
    by (auto simp: isolation_unfold)
  from lp xb wf have
    loop: "isolation_loop r loads True (cluster_nsg_config self) w = (Inr b, ev0, w')" by simp
  from isolation_loop_step[OF assms(1) loop[unfolded cluster_nsg_config_def]]
  obtain ev1 ev2 where
    s1: "ev0 = ev1 @ ev2" "commands ev1 = [nsg_cmd ''rg-c1-eastus'']"
        "isolation_loop r loads (True \<and> rc1 = 0 \<and> loads o1 \<noteq> None)
           [(c2_context self, ''C2'', ''rg-c2-westus'')] w1 = (Inr b, ev2, w')"
        "rc1 = 0 \<and> loads o1 = Some (JList []) \<longrightarrow> Print (NoNsgs ''C1'' ''rg-c1-eastus'') \<in> set ev1"
    by blast
  from isolation_loop_step[OF assms(2) s1(3)]
  obtain ev3 ev4 where
    s2: "ev2 = ev3 @ ev4" "commands ev3 = [nsg_cmd ''rg-c2-westus'']"
        "isolation_loop r loads ((True \<and> rc1 = 0 \<and> loads o1 \<noteq> None) \<and> rc2 = 0 \<and> loads o2 \<noteq> None)
           [] w2 = (Inr b, ev4, w')"
        "rc2 = 0 \<and> loads o2 = Some (JList []) \<longrightarrow> Print (NoNsgs ''C2'' ''rg-c2-westus'') \<in> set ev3"
    by blast
  from s2(3) have fin: "b = ((rc1 = 0 \<and> loads o1 \<noteq> None) \<and> rc2 = 0 \<and> loads o2 \<noteq> None)"
      "ev4 = []" "w' = w2"
    by (auto simp: io_return_def)
  have p1: "ok = False \<longleftrightarrow> (rc1 \<noteq> 0 \<or> loads o1 = None) \<or> (rc2 \<noteq> 0 \<or> loads o2 = None)"
    using ok fin(1) by blast
  have p2: "commands ev = [nsg_cmd ''rg-c1-eastus'', nsg_cmd ''rg-c2-westus'']"
    using ev s1(1,2) s2(1,2) fin(2) by simp
  have p4: "rc1 = 0 \<and> loads o1 = Some (JList []) \<longrightarrow> Print (NoNsgs ''C1'' ''rg-c1-eastus'') \<in> set ev"
    using s1(4) s1(1) ev by auto
  have p5: "rc2 = 0 \<and> loads o2 = Some (JList []) \<longrightarrow> Print (NoNsgs ''C2'' ''rg-c2-westus'') \<in> set ev"
    using s2(4) s2(1) s1(1) ev by auto
  from p1 p2 fin(3) p4 p5 show ?thesis by blast
qed

text \<open>
  The listing of the second resource group is denied: the result is \<^verbatim>\<open>False\<close>.
  Both listings are empty: the result is \<^verbatim>\<open>True\<close> and both warnings are printed.
\<close>

theorem isolation_false_iff_witness:
  "fst (test_network_isolation scripted sample_loads verifier
          [(nsg_doc, '''', 0), ('''', ''denied'', 1)]) = Inr False
   \<and> fst (test_network_isolation scripted sample_loads verifier
          [(''[]'', '''', 0), (''[]'', '''', 0)]) = Inr True
   \<and> Print (NoNsgs ''C1'' ''rg-c1-eastus'') \<in> set (fst (snd
        (test_network_isolation scripted sample_loads verifier
          [(''[]'', '''', 0), (''[]'', '''', 0)])))
   \<and> Print (NoNsgs ''C2'' ''rg-c2-westus'') \<in> set (fst (snd
        (test_network_isolation scripted sample_loads verifier
          [(''[]'', '''', 0), (''[]'', '''', 0)])))"
proof -
  have a1: "scripted (nsg_cmd ''rg-c1-eastus'') [(nsg_doc, '''', 0), ('''', ''denied'', 1)]
              = ((nsg_doc, '''', 0), [('''', ''denied'', 1)])"
    by (simp add: scripted_def)
  have a2: "scripted (nsg_cmd ''rg-c2-westus'') [('''', ''denied'', 1)]
              = (('''', ''denied'', 1), [])"
    by (simp add: scripted_def)
  have A: "False = False \<longleftrightarrow>
             ((0::int) \<noteq> 0 \<or> sample_loads nsg_doc = None) \<or> ((1::int) \<noteq> 0 \<or> sample_loads '''' = None)"
    by (rule isolation_false_iff[where r=scripted and loads=sample_loads,
            OF a1 a2 c2_denied_isolation_run, THEN conjunct1])
  have b1: "scripted (nsg_cmd ''rg-c1-eastus'') [(''[]'', '''', 0), (''[]'', '''', 0)]
              = ((''[]'', '''', 0), [(''[]'', '''', 0)])"
    by (simp add: scripted_def)
  have b2: "scripted (nsg_cmd ''rg-c2-westus'') [(''[]'', '''', 0)] = ((''[]'', '''', 0), [])"
    by (simp add: scripted_def)
  note B = isolation_false_iff[where r=scripted and loads=sample_loads,
            OF b1 b2 no_groups_isolation_run]
  have B1: "Print (NoNsgs ''C1'' ''rg-c1-eastus'') \<in> set (fst (snd
        (test_network_isolation scripted sample_loads verifier
          [(''[]'', '''', 0), (''[]'', '''', 0)])))"
    using B by (simp add: sample_loads_simps no_groups_isolation_run)
  have B2: "Print (NoNsgs ''C2'' ''rg-c2-westus'') \<in> set (fst (snd
        (test_network_isolation scripted sample_loads verifier
          [(''[]'', '''', 0), (''[]'', '''', 0)])))"
    using B by (simp add: sample_loads_simps no_groups_isolation_run)
  show ?thesis using A B1 B2
    by (simp add: c2_denied_isolation_run no_groups_isolation_run)
qed

section \<open>Orchestrator\<close>

text \<open>
  Claim C1. \<^verbatim>\<open>verify_all\<close> runs \<^verbatim>\<open>test_intended_connectivity\<close>, then
  \<^verbatim>\<open>test_public_exposure\<close> in the world the first check left, then
  \<^verbatim>\<open>test_network_isolation\<close> in the world the second left, whatever booleans the
  earlier checks returned. The events of the run are the banner, the events of the three
  checks in that order, and the summary; the overall line is printed last and carries the
  conjunction of the three results.
\<close>

theorem verify_all_sequence:
  assumes "test_intended_connectivity r self w = (Inr t1, e1, w1)"
      and "test_public_exposure r loads self w1 = (Inr t2, e2, w2)"
      and "test_network_isolation r loads self w2 = (Inr t3, e3, w3)"
  shows "verify_all r loads self w =
           (Inr ([(''intended_connectivity'', t1), (''public_exposure'', t2),
                  (''network_isolation'', t3)],
                 self\<lparr>results := [(''intended_connectivity'', t1), (''public_exposure'', t2),
                                   (''network_isolation'', t3)]\<rparr>),
            map Print [BlankRule, ReportTitle, Rule] @ e1 @ e2 @ e3
              @ map Print [BlankRule, SummaryTitle, Rule,
                           SummaryLine t1 ''intended_connectivity'',
                           SummaryLine t2 ''public_exposure'',
                           SummaryLine t3 ''network_isolation'',
                           Overall (t1 \<and> t2 \<and> t3)],
            w3)"
  using assms by (simp add: verify_all_def io_defs Let_def)

text \<open>
  A run in which all three checks fail: each check still runs, in order.
\<close>

theorem verify_all_sequence_witness:
  "fst (verify_all scripted sample_loads verifier
          [(''Pending'', '''', 0), (exposed_doc, '''', 0), ('''', ''denied'', 1),
           ('''', ''denied'', 1)])
     = Inr ([(''intended_connectivity'', False), (''public_exposure'', False),
             (''network_isolation'', False)],
            verifier\<lparr>results := [(''intended_connectivity'', False), (''public_exposure'', False),
                                   (''network_isolation'', False)]\<rparr>)
   \<and> commands (fst (snd (verify_all scripted sample_loads verifier
          [(''Pending'', '''', 0), (exposed_doc, '''', 0), ('''', ''denied'', 1),
           ('''', ''denied'', 1)])))
     = [get_dbg_cmd verifier, list_cmd ''aks-c1-eastus'', nsg_cmd ''rg-c1-eastus'',
        nsg_cmd ''rg-c2-westus'']"
  using verify_all_sequence[where r=scripted and loads=sample_loads,
          OF pending_run exposed_run denied_isolation_run, of "[]"]
  by simp

text \<open>
  Claim C2. \<^verbatim>\<open>verify_all\<close> returns a report exactly when the three checks return,
  and the report then has the three keys \<^verbatim>\<open>intended_connectivity\<close>,
  \<^verbatim>\<open>public_exposure\<close> and \<^verbatim>\<open>network_isolation\<close>, in this order, each with the
  boolean of its check, whatever these booleans are; the same dict is stored in
  \<^verbatim>\<open>self.results\<close>.
\<close>

theorem verify_all_report_keys:
  "fst (verify_all r loads self w) = Inr (rep, self') \<longleftrightarrow>
     (\<exists>t1 t2 t3 e1 w1 e2 w2 e3 w3.
        test_intended_connectivity r self w = (Inr t1, e1, w1) \<and>
        test_public_exposure r loads self w1 = (Inr t2, e2, w2) \<and>
        test_network_isolation r loads self w2 = (Inr t3, e3, w3) \<and>
        rep = [(''intended_connectivity'', t1), (''public_exposure'', t2),
               (''network_isolation'', t3)] \<and>
        self' = self\<lparr>results := rep\<rparr>)"
  by (auto simp: verify_all_def io_defs Let_def split: prod.splits sum.splits)

text \<open>
  The report of the run in which all three checks fail has the three keys.
\<close>

theorem verify_all_report_keys_witness:
  "\<exists>rep self'. fst (verify_all scripted sample_loads verifier
          [(''Pending'', '''', 0), (exposed_doc, '''', 0), ('''', ''denied'', 1),
           ('''', ''denied'', 1)]) = Inr (rep, self')
     \<and> map fst rep = [''intended_connectivity'', ''public_exposure'', ''network_isolation'']
     \<and> results self' = rep"
proof -
  let ?rep = "[(''intended_connectivity'', False), (''public_exposure'', False),
               (''network_isolation'', False)]"
  have "fst (verify_all scripted sample_loads verifier
          [(''Pending'', '''', 0), (exposed_doc, '''', 0), ('''', ''denied'', 1),
           ('''', ''denied'', 1)]) = Inr (?rep, verifier\<lparr>results := ?rep\<rparr>)"
    unfolding verify_all_report_keys
    using pending_run exposed_run denied_isolation_run by blast
  then show ?thesis by simp
qed

end
